theory Spec2Isabelle
  imports Complex_Main "HOL-Library.Sublist"
begin

section \<open>JavaScript values used by the two programs\<close>

text \<open>
  The shape arguments of both constructors are JavaScript numbers holding integers; they
  are modelled as \<open>int\<close>. The operations the source applies to them are written out below
  with the results JavaScript gives where HOL's total operators differ: a zero divisor,
  and a product beyond \<open>2 ^ 53\<close>, which double arithmetic rounds (\<open>nearestDouble\<close>, with
  the workgroup count).
\<close>

definition js_rem :: "int \<Rightarrow> int \<Rightarrow> int option" where
  \<comment> \<open>\<open>a % b\<close>: the remainder takes the sign of the dividend; \<open>None\<close> is \<open>NaN\<close>
      (zero divisor), which is \<open>=== 0\<close> for no value.\<close>
  "js_rem a b = (if b = 0 then None else Some (sgn a * (\<bar>a\<bar> mod \<bar>b\<bar>)))"

definition ceilDiv :: "int \<Rightarrow> int \<Rightarrow> int option" where
  \<comment> \<open>\<open>Math.ceil(a / b)\<close>; \<open>None\<close> is the non-finite result of a zero divisor.\<close>
  "ceilDiv a b = (if b = 0 then None else Some \<lceil>real_of_int a / real_of_int b\<rceil>)"

definition digitChar :: "nat \<Rightarrow> char" where
  "digitChar d = ''0123456789'' ! d"

fun natToString :: "nat \<Rightarrow> string" where
  "natToString n = (if n < 10 then [digitChar n] else natToString (n div 10) @ [digitChar (n mod 10)])"

declare natToString.simps [simp del]

definition numberToString :: "int \<Rightarrow> string" where
  \<comment> \<open>\<open>`${n}`\<close> for an integer \<open>n\<close>.\<close>
  "numberToString n = (if n < 0 then CHR ''-'' # natToString (nat (- n)) else natToString (nat n))"

definition boolToString :: "bool \<Rightarrow> string" where
  \<comment> \<open>\<open>`${b}`\<close> for a boolean.\<close>
  "boolToString b = (if b then ''true'' else ''false'')"

definition activationToString :: "string option \<Rightarrow> string" where
  \<comment> \<open>\<open>`${this.activation}`\<close>: \<open>backend_util.Activation\<close> is a string type, \<open>null\<close> by
      default.\<close>
  "activationToString a = (case a of None \<Rightarrow> ''null'' | Some s \<Rightarrow> s)"

section \<open>The kernel text\<close>

text \<open>
  The snippet libraries the two programs compose with (\<open>webgpu_program\<close>,
  \<open>activation_util\<close>, \<open>matmul_packed_webgpu\<close>, \<open>conv2d_mm_webgpu\<close>) are text-producing
  functions outside these two files. They are parameters of the model: a record of the
  functions the source imports, applied where the source applies them.
\<close>

record snippets =
  typeSnippet :: "int \<Rightarrow> string"
  getMainHeaderString :: string
  activationFnSnippet :: "string option \<Rightarrow> bool \<Rightarrow> bool \<Rightarrow> string"
  matMulReadWriteFnSource ::
    "bool \<Rightarrow> string option \<Rightarrow> bool \<Rightarrow> bool \<Rightarrow> bool \<Rightarrow> bool \<Rightarrow> bool \<Rightarrow> int \<Rightarrow> int \<Rightarrow> string"
  conv2dCommonSnippet ::
    "bool \<Rightarrow> bool \<Rightarrow> bool \<Rightarrow> bool \<Rightarrow> bool \<Rightarrow> string option \<Rightarrow> bool \<Rightarrow> int \<Rightarrow> int \<Rightarrow> int \<Rightarrow> string"

definition calcResult :: "string \<Rightarrow> string \<Rightarrow> int \<Rightarrow> int \<Rightarrow> string" where
  \<comment> \<open>Lines 33 to 49: \<open>calcStr\<close> after the two loops, the loops as maps over
      \<open>0, ..., n - 1\<close>.\<close>
  "calcResult aValueType bValueType outputNumber aComponents =
     ''var aData: '' @ aValueType @ '';'' @
     concat (map (\<lambda>i.
         ''\<newline>'' @
         ''            let bData'' @ numberToString i @ '' = mm_Bsub[k + '' @ numberToString i @
         ''][localCol];'')
       [0..aComponents - 1]) @
     concat (map (\<lambda>i.
         ''aData = mm_Asub[localRow + '' @ numberToString i @ ''][k / '' @
         numberToString aComponents @ ''];'' @
         concat (map (\<lambda>j.
             ''\<newline>'' @
             ''          values['' @ numberToString i @ ''] = fma('' @ bValueType @ ''(aData'' @
             (if aComponents = 1 then [] else ''['' @ numberToString j @ '']'') @
             ''), bData'' @ numberToString j @ '', values['' @ numberToString i @ '']);\<newline>'')
           [0..aComponents - 1]))
       [0..outputNumber - 1])"

text \<open>
  The template of \<open>makeMatMulLWSSource\<close> (lines 51 to 119) is one literal; it is written
  here as its consecutive slices, each interpolation in its place.
\<close>

definition sharedMemoryDeclarations :: "string \<Rightarrow> string \<Rightarrow> int \<Rightarrow> int \<Rightarrow> int \<Rightarrow> int \<Rightarrow> int \<Rightarrow> string" where
  \<comment> \<open>Lines 52 to 55 of the template, up to the indentation of the entry point.\<close>
  "sharedMemoryDeclarations aValueType bValueType components aComponents tileM tileN tileK =
     ''\<newline>'' @
     ''  var<workgroup> mm_Asub: array<array<'' @ aValueType @ '', '' @
     numberToString (tileK div aComponents) @ ''>, '' @ numberToString tileM @ ''>;\<newline>'' @
     ''  var<workgroup> mm_Bsub: array<array<'' @ bValueType @ '', '' @
     numberToString (tileN div components) @ ''>, '' @ numberToString tileK @ ''>;\<newline>'' @
     ''  ''"

definition tileIndexRecovery :: "snippets \<Rightarrow> string \<Rightarrow> int \<Rightarrow> int \<Rightarrow> int \<Rightarrow> int \<Rightarrow> bool \<Rightarrow> string" where
  \<comment> \<open>Lines 56 to 70: the entry point header and the recovery of the batch and tile indices.\<close>
  "tileIndexRecovery ext outValueType outputNumber tileM tileN tileK isConv =
     getMainHeaderString ext @ '' {\<newline>'' @
     ''    let virtualGlobalId = workgroupId.z * numWorkgroups.x * numWorkgroups.y +\<newline>'' @
     ''        workgroupId.y * numWorkgroups.x + workgroupId.x;\<newline>'' @
     ''    let stride0 = (u32(uniforms.dimBOuter) - 1u) / '' @ numberToString tileN @
     ''u + 1u;\<newline>'' @
     ''    let tileColStart = (virtualGlobalId % stride0) * '' @ numberToString tileN @
     ''u;\<newline>'' @
     ''    var index1 = virtualGlobalId / stride0;\<newline>'' @
     ''    let stride1 = (u32(uniforms.dimAOuter) - 1u) / '' @ numberToString tileM @
     ''u + 1u;\<newline>'' @
     ''    let tileRowStart = (index1 % stride1) * '' @ numberToString tileM @ ''u;\<newline>'' @
     ''    let batch = index1 / stride1;\<newline>'' @
     ''    let batchA = '' @
     (if isConv then ''i32(batch)'' else ''i32(batch) % uniforms.aShape[0]'') @ '';\<newline>'' @
     ''    let batchB = '' @ (if isConv then ''0i'' else ''i32(batch) % uniforms.bShape[0]'') @
     '';\<newline>'' @
     ''\<newline>'' @
     ''    var values: array<'' @ outValueType @ '', '' @ numberToString outputNumber @
     ''>;\<newline>'' @
     ''    let numTiles = (u32(uniforms.dimInner) - 1u) / '' @ numberToString tileK @
     '' + 1u;\<newline>'' @
     ''    var kStart = 0u;\<newline>''"

definition loadTiles :: "int \<Rightarrow> int \<Rightarrow> int \<Rightarrow> int \<Rightarrow> int \<Rightarrow> int \<Rightarrow> string" where
  \<comment> \<open>Lines 73 to 91: the cooperative loads of one tile of each operand.\<close>
  "loadTiles workgroupSize components aComponents tileM tileN tileK =
     ''      // Load one tile of A into local memory.\<newline>'' @
     ''      for (var tIndex = localIndex; tIndex < '' @
     numberToString ((tileM * tileK) div aComponents) @ ''; tIndex += '' @
     numberToString workgroupSize @ '') {\<newline>'' @
     ''          let inputRow = tIndex / '' @ numberToString (tileK div aComponents) @
     '';\<newline>'' @
     ''          let inputCol = tIndex % '' @ numberToString (tileK div aComponents) @
     '';\<newline>'' @
     ''\<newline>'' @
     ''          mm_Asub[inputRow][inputCol] = mm_readA(batchA, i32(tileRowStart + inputRow), i32(kStart + inputCol * '' @
     numberToString aComponents @ ''));\<newline>'' @
     ''      }\<newline>'' @
     ''\<newline>'' @
     ''      // Load one tile of B into local memory.\<newline>'' @
     ''      for (var tIndex = localIndex; tIndex < '' @
     numberToString ((tileK * tileN) div components) @ ''; tIndex += '' @
     numberToString workgroupSize @ '') {\<newline>'' @
     ''          let inputRow = tIndex / '' @ numberToString (tileN div components) @
     '';\<newline>'' @
     ''          let inputCol = tIndex % '' @ numberToString (tileN div components) @
     '';\<newline>'' @
     ''          mm_Bsub[inputRow][inputCol] = mm_readB(batchB, i32(kStart + inputRow), i32(tileColStart + inputCol * '' @
     numberToString components @ ''));\<newline>'' @
     ''      }\<newline>'' @
     ''      kStart = kStart + '' @ numberToString tileK @ '';\<newline>''"

definition computeValues :: "string \<Rightarrow> string \<Rightarrow> int \<Rightarrow> int \<Rightarrow> int \<Rightarrow> int \<Rightarrow> int \<Rightarrow> int \<Rightarrow> int \<Rightarrow> string" where
  \<comment> \<open>Lines 93 to 103: the accumulation over the loaded tiles.\<close>
  "computeValues aValueType bValueType workgroupSize outputNumber components aComponents tileM tileN tileK =
     ''\<newline>'' @
     ''      // Compute values for a single thread.\<newline>'' @
     ''      for (var k = 0; k < '' @ numberToString tileK @ ''; k = k + '' @
     numberToString aComponents @ '') {\<newline>'' @
     ''        for (var tIndex = localIndex; tIndex < '' @
     numberToString ((tileM div outputNumber) * (tileN div components)) @ ''; tIndex += '' @
     numberToString workgroupSize @ '') {\<newline>'' @
     ''          let localRow = tIndex / '' @ numberToString (tileN div components) @ '' * '' @
     numberToString outputNumber @ '';\<newline>'' @
     ''          let localCol = tIndex % '' @ numberToString (tileN div components) @
     '';\<newline>'' @
     ''        '' @ calcResult aValueType bValueType outputNumber aComponents @ ''\<newline>'' @
     ''      }\<newline>'' @
     ''      }\<newline>''"

definition writeBack :: "int \<Rightarrow> int \<Rightarrow> int \<Rightarrow> int \<Rightarrow> int \<Rightarrow> string" where
  \<comment> \<open>Lines 106 to 119: the write of the accumulated values, and the end of the template.\<close>
  "writeBack workgroupSize outputNumber components tileM tileN =
     ''\<newline>'' @
     ''    for (var tIndex = localIndex; tIndex < '' @
     numberToString ((tileM div outputNumber) * (tileN div components)) @ ''; tIndex += '' @
     numberToString workgroupSize @ '') {\<newline>'' @
     ''      let localRow = tIndex / '' @ numberToString (tileN div components) @ '' * '' @
     numberToString outputNumber @ '';\<newline>'' @
     ''      let localCol = tIndex % '' @ numberToString (tileN div components) @
     '';\<newline>'' @
     ''      let globalCol = tileColStart + localCol * '' @ numberToString components @
     '';\<newline>'' @
     ''      let globalRow = tileRowStart + localRow;\<newline>'' @
     ''      for (var i = 0u; i < '' @ numberToString outputNumber @ ''u; i++) {\<newline>'' @
     ''        mm_write(i32(batch), i32(globalRow + i), i32(globalCol), values[i]);\<newline>'' @
     ''      }\<newline>'' @
     ''    }\<newline>'' @
     ''  }\<newline>'' @
     ''  ''"

definition reductionLoop :: "string \<Rightarrow> string \<Rightarrow> int \<Rightarrow> int \<Rightarrow> int \<Rightarrow> int \<Rightarrow> int \<Rightarrow> int \<Rightarrow> int \<Rightarrow> string" where
  \<comment> \<open>Lines 71 to 105: the loop over the shared dimension, with its two barriers.\<close>
  "reductionLoop aValueType bValueType workgroupSize outputNumber components aComponents tileM tileN tileK =
     ''    // Loop over shared dimension.\<newline>'' @
     ''    for (var t = 0u; t < numTiles; t = t + 1u) {\<newline>'' @
     loadTiles workgroupSize components aComponents tileM tileN tileK @
     ''      workgroupBarrier();\<newline>'' @
     computeValues aValueType bValueType workgroupSize outputNumber components aComponents tileM tileN tileK @
     ''      workgroupBarrier();\<newline>'' @
     ''    }\<newline>''"

definition quotientsExact :: "int \<Rightarrow> int \<Rightarrow> int \<Rightarrow> int \<Rightarrow> int \<Rightarrow> int \<Rightarrow> bool" where
  \<comment> \<open>The template prints the quotients \<open>tileK / aComponents\<close>, \<open>tileN / components\<close>,
      \<open>tileM * tileK / aComponents\<close>, \<open>tileK * tileN / components\<close> and
      \<open>tileM / outputNumber\<close>. JavaScript divides in floating point; the model covers the
      calls where every quotient is an integer, which is what the check in both
      constructors establishes before \<open>getUserCode\<close> can run.\<close>
  "quotientsExact outputNumber components aComponents tileM tileN tileK =
     (js_rem tileK aComponents = Some 0 \<and> js_rem tileN components = Some 0 \<and>
      js_rem (tileM * tileK) aComponents = Some 0 \<and> js_rem (tileK * tileN) components = Some 0 \<and>
      js_rem tileM outputNumber = Some 0)"

definition makeMatMulLWSSource ::
  "snippets \<Rightarrow> int \<Rightarrow> int \<Rightarrow> int \<Rightarrow> int \<Rightarrow> int \<Rightarrow> int \<Rightarrow> int \<Rightarrow> bool \<Rightarrow> string option" where
  \<comment> \<open>\<open>None\<close>: a printed quotient is not an integer, and the text is outside the model.\<close>
  "makeMatMulLWSSource ext workgroupSize outputNumber components aComponents tileM tileN tileK isConv =
     (let aValueType = typeSnippet ext aComponents;
          bValueType = typeSnippet ext components;
          outValueType = typeSnippet ext components
      in if quotientsExact outputNumber components aComponents tileM tileN tileK
         then Some
           (sharedMemoryDeclarations aValueType bValueType components aComponents tileM tileN tileK @
            tileIndexRecovery ext outValueType outputNumber tileM tileN tileK isConv @
            reductionLoop aValueType bValueType workgroupSize outputNumber components aComponents
              tileM tileN tileK @
            writeBack workgroupSize outputNumber components tileM tileN)
         else None)"

fun countOccurrences :: "string \<Rightarrow> string \<Rightarrow> nat" where
  \<comment> \<open>The number of positions of the text at which the pattern starts.\<close>
  "countOccurrences pat [] = 0"
| "countOccurrences pat (c # s) = (if prefix pat (c # s) then 1 else 0) + countOccurrences pat s"

text \<open>
  Helpers for counting: a pattern without digit or sign characters cannot overlap a printed
  number; \<open>rightSafe\<close> says that no nonempty suffix of a pattern starts the text that
  follows a snippet; \<open>kernelPattern\<close> names the two patterns counted below.
\<close>

definition digitFree :: "string \<Rightarrow> bool" where
  "digitFree pat = (pat \<noteq> [] \<and> list_all (\<lambda>c. c \<notin> set ''-0123456789'') pat)"

fun rightSafe :: "string \<Rightarrow> string \<Rightarrow> bool" where
  "rightSafe [] r = True"
| "rightSafe (p # ps) r = (\<not> prefix (p # ps) r \<and> rightSafe ps r)"

definition kernelPattern :: "string \<Rightarrow> bool" where
  "kernelPattern pat = (pat = ''var<workgroup>'' \<or> pat = ''workgroupBarrier()'')"

section \<open>The vector-width selectors\<close>

definition getMaxComponents :: "int \<Rightarrow> int" where
  \<comment> \<open>\<open>matmul_lws_webgpu.ts\<close>, lines 122 to 130.\<close>
  "getMaxComponents sz =
     (if js_rem sz 4 = Some 0 then 4
      else if js_rem sz 2 = Some 0 then 2
      else 1)"

definition getMaxComponents_conv :: "int \<Rightarrow> int" where
  \<comment> \<open>The convolution file's own \<open>getMaxComponents\<close>, lines 24 to 34.\<close>
  "getMaxComponents_conv sz =
     (if js_rem sz 4 = Some 0 then 4
      else if js_rem sz 3 = Some 0 then 3
      else if js_rem sz 2 = Some 0 then 2
      else 1)"

fun select_width :: "int \<Rightarrow> int list \<Rightarrow> int" where
  \<comment> \<open>The specification's selector, in its words: the first candidate that evenly divides
      the size, 1 if none does.\<close>
  "select_width sz [] = 1"
| "select_width sz (c # cs) = (if c dvd sz then c else select_width sz cs)"

section \<open>The programs\<close>

datatype error = Error string

record LWSProgram =
  outputShape :: "int list"
  shaderKey :: string
  dispatchLayout :: "int list \<times> int list \<times> int list"
  dispatch :: "int option \<times> int \<times> int"
  variableNames :: "string list"
  variableComponents :: "int list"
  outputComponent :: int
  uniforms :: string
  workgroupSize :: "int \<times> int \<times> int"
  addBias :: bool
  activation :: "string option"
  hasPreluActivationWeights :: bool
  components :: int
  aComponents :: int
  outputNumber :: int
  fitAOuter :: bool
  fitBOuter :: bool
  fitInner :: bool
  tileN :: int
  tileM :: int
  tileK :: int

record MatMulLWSProgram = LWSProgram +
  transposeA :: bool
  transposeB :: bool

record Conv2DMMLWSProgram = LWSProgram +
  isChannelsLast :: bool

record Conv2DInfo =
  outShape :: "int \<times> int \<times> int \<times> int"
  dataFormat :: string

definition divisibilityMessage :: "int \<Rightarrow> int \<Rightarrow> int \<Rightarrow> int \<Rightarrow> int \<Rightarrow> int \<Rightarrow> string" where
  "divisibilityMessage tN c tM out tK a =
     ''tileN('' @ numberToString tN @ '') must be divisible by components('' @ numberToString c @
     ''), tileM('' @ numberToString tM @ '') must be divisible by outputNumber('' @
     numberToString out @ ''), tileK('' @ numberToString tK @
     '') must be divisible by aComponents('' @ numberToString a @ '')''"

fun bitLength :: "nat \<Rightarrow> nat" where
  \<comment> \<open>The number of binary digits of \<open>n\<close>.\<close>
  "bitLength n = (if n = 0 then 0 else Suc (bitLength (n div 2)))"

declare bitLength.simps [simp del]

definition nearestDouble :: "int \<Rightarrow> int option" where
  \<comment> \<open>The double nearest to the integer \<open>n\<close>, as IEEE 754 rounds the exact result of an
      operation (to nearest, ties to the even significand of 53 bits). Every integer up to
      \<open>2 ^ 53\<close> in magnitude is a double. \<open>None\<close> is the overflow to \<open>Infinity\<close>.\<close>
  "nearestDouble n =
     (if \<bar>n\<bar> \<le> 2 ^ 53 then Some n
      else
        let m = nat \<bar>n\<bar>;
            e = bitLength m - 53;
            q = m div 2 ^ e;
            r = m mod 2 ^ e;
            q' = (if 2 ^ (e - 1) < r \<or> (r = 2 ^ (e - 1) \<and> odd q) then q + 1 else q)
        in if 2 ^ 1024 \<le> q' * 2 ^ e then None else Some (sgn n * int (q' * 2 ^ e)))"

definition js_mul :: "int option \<Rightarrow> int option \<Rightarrow> int option" where
  \<comment> \<open>\<open>a * b\<close> on numbers that hold integers or are not finite (\<open>None\<close>): the exact
      product, rounded to a double.\<close>
  "js_mul a b = (case (a, b) of (Some x, Some y) \<Rightarrow> nearestDouble (x * y) | _ \<Rightarrow> None)"

definition numWorkgroups :: "int \<Rightarrow> int \<Rightarrow> int \<Rightarrow> int \<Rightarrow> int \<Rightarrow> int option" where
  \<comment> \<open>\<open>batch * Math.ceil(M / this.tileM) * Math.ceil(N / this.tileN)\<close>, the two products
      taken from the left, each in double arithmetic.\<close>
  "numWorkgroups batch M tM N tN = js_mul (js_mul (Some batch) (ceilDiv M tM)) (ceilDiv N tN)"

definition pushIf :: "bool \<Rightarrow> 'a \<Rightarrow> 'a list \<Rightarrow> 'a list" where
  \<comment> \<open>\<open>if (c) { xs.push(x); }\<close>\<close>
  "pushIf c x xs = (if c then xs @ [x] else xs)"

definition MatMulLWSProgram ::
  "int \<times> int \<times> int \<Rightarrow> int \<Rightarrow> bool \<Rightarrow> bool \<Rightarrow> 'tensor option \<Rightarrow> string option \<Rightarrow>
     'tensor option \<Rightarrow> error + MatMulLWSProgram" where
  "MatMulLWSProgram outShp sharedDim trA trB bias act preluActivationWeights =
    (case outShp of (batch, M, N) \<Rightarrow>
     let K = sharedDim;
         comps = (if js_rem N 4 = Some 0 then 4 else 1);
         aComps = getMaxComponents K;
         tN = (if N < 32 then N else 32);
         tM = (if M < 32 then M else 32);
         tK = (if K < 32 then K else (if K > 1000 then 32 else 16));
         outNum = (if tM < 4 then tM else getMaxComponents tM)
     in
     if js_rem tN comps \<noteq> Some 0 \<or> js_rem tM outNum \<noteq> Some 0 \<or> js_rem tK aComps \<noteq> Some 0
     then Inl (Error (divisibilityMessage tN comps tM outNum tK aComps))
     else
       let hasBias = (bias \<noteq> None);
           hasPrelu = (preluActivationWeights \<noteq> None);
           fitA = (js_rem M tM = Some 0);
           fitB = (js_rem N tN = Some 0);
           fitI = (js_rem K tK = Some 0)
       in Inr \<lparr>
         outputShape = [batch, M, N],
         shaderKey =
           ''matMulLWS_'' @ activationToString act @ ''_'' @ boolToString trA @ ''_'' @
           boolToString trB @ ''_'' @ boolToString fitA @ ''_'' @ boolToString fitB @ ''_'' @
           boolToString fitI @ ''_'' @ numberToString tK @ ''_'' @ numberToString tM @ ''_'' @
           numberToString tN @ ''_'' @ numberToString comps @ ''_'' @ numberToString aComps @
           ''_'' @ numberToString outNum,
         dispatchLayout = ([], [1, 2], [0]),
         dispatch = (numWorkgroups batch M tM N tN, 1, 1),
         variableNames =
           pushIf hasPrelu ''preluActivationWeights'' (pushIf hasBias ''bias'' [''A'', ''B'']),
         variableComponents = pushIf hasPrelu comps (pushIf hasBias comps [aComps, comps]),
         outputComponent = comps,
         uniforms = ''dimAOuter : i32, dimBOuter : i32, dimInner : i32,'',
         workgroupSize = (64, 1, 1),
         addBias = hasBias,
         activation = act,
         hasPreluActivationWeights = hasPrelu,
         components = comps,
         aComponents = aComps,
         outputNumber = outNum,
         fitAOuter = fitA,
         fitBOuter = fitB,
         fitInner = fitI,
         tileN = tN,
         tileM = tM,
         tileK = tK,
         transposeA = trA,
         transposeB = trB \<rparr>)"

definition Conv2DMMLWSProgram ::
  "Conv2DInfo \<Rightarrow> int \<Rightarrow> int \<Rightarrow> int \<Rightarrow> bool \<Rightarrow> string option \<Rightarrow> bool \<Rightarrow>
     error + Conv2DMMLWSProgram" where
  "Conv2DMMLWSProgram convInfo M N K hasBias act hasPrelu =
    (case outShape convInfo of (batch, d1, d2, d3) \<Rightarrow>
     let comps = (if js_rem N 4 = Some 0 then 4 else 1);
         aComps = getMaxComponents_conv K;
         tN = (if N < 32 then N else 32);
         tM = (if M < 32 then M else 32);
         tK = (if K < 32 then K
               else (if K > 1000 then \<lceil>32 / real_of_int aComps\<rceil> * aComps
                     else \<lceil>16 / real_of_int aComps\<rceil> * aComps));
         outNum = (if tM < 4 then tM else getMaxComponents_conv tM)
     in
     if js_rem tN comps \<noteq> Some 0 \<or> js_rem tM outNum \<noteq> Some 0 \<or> js_rem tK aComps \<noteq> Some 0
     then Inl (Error (divisibilityMessage tN comps tM outNum tK aComps))
     else
       let fitA = (js_rem M tM = Some 0);
           fitB = (js_rem N tN = Some 0);
           fitI = (js_rem K tK = Some 0)
       in Inr \<lparr>
         outputShape = [batch, d1, d2, d3],
         shaderKey =
           ''conv2DMMLWS_'' @ activationToString act @ ''}_'' @ boolToString fitA @ ''_'' @
           boolToString fitB @ ''_'' @ boolToString fitI @ ''_'' @ numberToString tK @ ''_'' @
           numberToString tM @ ''_'' @ numberToString tN @ ''_'' @ numberToString comps @ ''_'' @
           numberToString aComps @ ''_'' @ numberToString outNum,
         dispatchLayout = ([3], [1, 2], [0]),
         dispatch = (numWorkgroups batch M tM N tN, 1, 1),
         variableNames =
           pushIf hasPrelu ''preluActivationWeights'' (pushIf hasBias ''bias'' [''x'', ''W'']),
         variableComponents =
           pushIf hasPrelu comps
             (pushIf hasBias comps [if aComps = 3 then 1 else aComps, comps]),
         outputComponent = comps,
         uniforms =
           ''filterDims : vec2<i32>, pads : vec2<i32>, strides : vec2<i32>, dilations : vec2<i32>, dimAOuter : i32, dimBOuter : i32, dimInner : i32,'',
         workgroupSize = (64, 1, 1),
         addBias = hasBias,
         activation = act,
         hasPreluActivationWeights = hasPrelu,
         components = comps,
         aComponents = aComps,
         outputNumber = outNum,
         fitAOuter = fitA,
         fitBOuter = fitB,
         fitInner = fitI,
         tileN = tN,
         tileM = tM,
         tileK = tK,
         isChannelsLast = (dataFormat convInfo = ''channelsLast'') \<rparr>)"

definition getUserCode :: "snippets \<Rightarrow> MatMulLWSProgram \<Rightarrow> string option" where
  \<comment> \<open>\<open>MatMulLWSProgram.getUserCode\<close>; \<open>isConv\<close> takes its default, false.\<close>
  "getUserCode ext this =
     map_option (\<lambda>source.
         ''\<newline>'' @
         ''      '' @
         activationFnSnippet ext (activation this) (hasPreluActivationWeights this)
           (components this = 4) @
         ''\<newline>'' @
         ''      '' @
         matMulReadWriteFnSource ext (addBias this) (activation this) (transposeA this)
           (transposeB this) (fitAOuter this) (fitBOuter this) (fitInner this) (components this)
           (aComponents this) @
         ''\<newline>'' @
         ''      '' @ source @ ''\<newline>'' @
         ''    '')
       (makeMatMulLWSSource ext (fst (workgroupSize this)) (outputNumber this) (components this)
          (aComponents this) (tileM this) (tileN this) (tileK this) False)"

definition getUserCode_conv :: "snippets \<Rightarrow> Conv2DMMLWSProgram \<Rightarrow> string option" where
  \<comment> \<open>\<open>Conv2DMMLWSProgram.getUserCode\<close>\<close>
  "getUserCode_conv ext this =
     map_option (\<lambda>source.
         ''\<newline>'' @
         ''    '' @
         conv2dCommonSnippet ext (isChannelsLast this) (fitAOuter this) (fitBOuter this)
           (fitInner this) (addBias this) (activation this) (hasPreluActivationWeights this)
           (aComponents this) (components this) (components this) @
         ''\<newline>'' @
         ''    '' @ source @ ''\<newline>'' @
         ''  '')
       (makeMatMulLWSSource ext (fst (workgroupSize this)) (outputNumber this) (components this)
          (aComponents this) (tileM this) (tileN this) (tileK this) True)"


section \<open>Arithmetic of the selectors and of the tile planner\<close>

lemma js_rem_zero_iff: "js_rem a b = Some 0 \<longleftrightarrow> b \<noteq> 0 \<and> b dvd a"
proof (cases "b = 0")
  case True
  then show ?thesis by (simp add: js_rem_def)
next
  case False
  have "sgn a * (\<bar>a\<bar> mod \<bar>b\<bar>) = 0 \<longleftrightarrow> \<bar>a\<bar> mod \<bar>b\<bar> = 0"
    by (cases "a = 0") (auto simp: sgn_if)
  also have "\<dots> \<longleftrightarrow> b dvd a"
    by (simp add: mod_eq_0_iff_dvd)
  finally show ?thesis using False by (simp add: js_rem_def)
qed

lemma getMaxComponents_select: "getMaxComponents t = select_width t [4, 2, 1]"
  by (simp add: getMaxComponents_def js_rem_zero_iff)

lemma getMaxComponents_conv_select: "getMaxComponents_conv t = select_width t [4, 3, 2, 1]"
  by (simp add: getMaxComponents_conv_def js_rem_zero_iff)

lemma getMaxComponents_dvd: "getMaxComponents t dvd t"
  by (simp add: getMaxComponents_def js_rem_zero_iff)

lemma getMaxComponents_conv_dvd: "getMaxComponents_conv t dvd t"
  by (simp add: getMaxComponents_conv_def js_rem_zero_iff)

lemma getMaxComponents_cases: "getMaxComponents t \<in> {4, 2, 1}"
  by (simp add: getMaxComponents_def)

lemma getMaxComponents_conv_cases: "getMaxComponents_conv t \<in> {4, 3, 2, 1}"
  by (simp add: getMaxComponents_conv_def)

lemma getMaxComponents_nonzero: "getMaxComponents t \<noteq> 0"
  by (simp add: getMaxComponents_def)

lemma getMaxComponents_conv_nonzero: "getMaxComponents_conv t \<noteq> 0"
  by (simp add: getMaxComponents_conv_def)

lemma if_Inr_E:
  assumes "(if c then Inl e else Inr r) = Inr p"
  obtains "\<not> c" and "p = r"
  using assms by (cases c) simp_all

lemma MatMul_fields:
  assumes "MatMulLWSProgram (batch, M, N) K trA trB bias act prelu = Inr p"
  shows "components p = (if js_rem N 4 = Some 0 then 4 else 1)"
    and "aComponents p = getMaxComponents K"
    and "tileN p = (if N < 32 then N else 32)"
    and "tileM p = (if M < 32 then M else 32)"
    and "tileK p = (if K < 32 then K else (if K > 1000 then 32 else 16))"
    and "outputNumber p = (if tileM p < 4 then tileM p else getMaxComponents (tileM p))"
    and "dispatch p = (numWorkgroups batch M (tileM p) N (tileN p), 1, 1)"
    and "js_rem (tileN p) (components p) = Some 0"
    and "js_rem (tileM p) (outputNumber p) = Some 0"
    and "js_rem (tileK p) (aComponents p) = Some 0"
  using assms unfolding MatMulLWSProgram_def Let_def prod.case
  by (elim if_Inr_E, simp)+

lemma Conv_fields:
  assumes "Conv2DMMLWSProgram convInfo M N K hasBias act hasPrelu = Inr p"
  shows "components p = (if js_rem N 4 = Some 0 then 4 else 1)"
    and "aComponents p = getMaxComponents_conv K"
    and "tileN p = (if N < 32 then N else 32)"
    and "tileM p = (if M < 32 then M else 32)"
    and "tileK p = (if K < 32 then K
               else (if K > 1000 then \<lceil>32 / real_of_int (aComponents p)\<rceil> * aComponents p
                     else \<lceil>16 / real_of_int (aComponents p)\<rceil> * aComponents p))"
    and "outputNumber p = (if tileM p < 4 then tileM p else getMaxComponents_conv (tileM p))"
    and "dispatch p = (numWorkgroups (fst (outShape convInfo)) M (tileM p) N (tileN p), 1, 1)"
    and "variableComponents p ! 0 = (if aComponents p = 3 then 1 else aComponents p)"
    and "js_rem (tileN p) (components p) = Some 0"
    and "js_rem (tileM p) (outputNumber p) = Some 0"
    and "js_rem (tileK p) (aComponents p) = Some 0"
  using assms unfolding Conv2DMMLWSProgram_def Let_def
  by (cases "outShape convInfo", simp only: prod.case fst_conv, elim if_Inr_E, simp add: pushIf_def)+

lemma tileN_check: "1 \<le> N \<Longrightarrow> js_rem (if N < 32 then N else 32) (if js_rem N 4 = Some 0 then 4 else 1) = Some 0"
  by (simp add: js_rem_zero_iff)

lemma tileM_check:
  "1 \<le> M \<Longrightarrow> tM = (if M < 32 then M else 32) \<Longrightarrow>
     js_rem tM (if tM < 4 then tM else getMaxComponents tM) = Some 0"
  by (auto simp: js_rem_zero_iff getMaxComponents_dvd getMaxComponents_nonzero)

lemma tileM_check_conv:
  "1 \<le> M \<Longrightarrow> tM = (if M < 32 then M else 32) \<Longrightarrow>
     js_rem tM (if tM < 4 then tM else getMaxComponents_conv tM) = Some 0"
  by (auto simp: js_rem_zero_iff getMaxComponents_conv_dvd getMaxComponents_conv_nonzero)

lemma tileK_check:
  "js_rem (if K < 32 then K else (if K > 1000 then 32 else 16)) (getMaxComponents K) = Some 0"
  using getMaxComponents_dvd [of K] getMaxComponents_cases [of K]
  by (auto simp: js_rem_zero_iff)

lemma tileK_check_conv:
  "js_rem (if K < 32 then K
           else (if K > 1000 then \<lceil>32 / real_of_int (getMaxComponents_conv K)\<rceil> * getMaxComponents_conv K
                 else \<lceil>16 / real_of_int (getMaxComponents_conv K)\<rceil> * getMaxComponents_conv K))
     (getMaxComponents_conv K) = Some 0"
  using getMaxComponents_conv_dvd [of K] getMaxComponents_conv_cases [of K]
  by (auto simp: js_rem_zero_iff)

lemma MatMul_constructs:
  assumes "1 \<le> M" "1 \<le> N"
  shows "\<exists>p. MatMulLWSProgram (batch, M, N) K trA trB bias act prelu = Inr p"
  using tileN_check [OF assms(2)] tileM_check [OF assms(1) refl] tileK_check [of K]
  unfolding MatMulLWSProgram_def Let_def by simp

lemma Conv_constructs:
  assumes "1 \<le> M" "1 \<le> N"
  shows "\<exists>p. Conv2DMMLWSProgram convInfo M N K hasBias act hasPrelu = Inr p"
  using tileN_check [OF assms(2)] tileM_check_conv [OF assms(1) refl] tileK_check_conv [of K]
  unfolding Conv2DMMLWSProgram_def Let_def by (simp split: prod.splits)


lemma numWorkgroups_Some:
  assumes "tM \<noteq> 0" and "tN \<noteq> 0"
    and "\<bar>batch * \<lceil>real_of_int M / real_of_int tM\<rceil>\<bar> \<le> 2 ^ 53"
    and "\<bar>batch * \<lceil>real_of_int M / real_of_int tM\<rceil> * \<lceil>real_of_int N / real_of_int tN\<rceil>\<bar> \<le> 2 ^ 53"
  shows "numWorkgroups batch M tM N tN =
     Some (batch * \<lceil>real_of_int M / real_of_int tM\<rceil> * \<lceil>real_of_int N / real_of_int tN\<rceil>)"
  using assms by (simp add: numWorkgroups_def ceilDiv_def js_mul_def nearestDouble_def)


lemma ceiling_quotient_ge_1:
  "1 \<le> a \<Longrightarrow> 1 \<le> b \<Longrightarrow> 1 \<le> \<lceil>real_of_int a / real_of_int b\<rceil>"
proof -
  assume "1 \<le> a" and "1 \<le> b"
  then have "0 < real_of_int a / real_of_int b" by simp
  then have "0 < \<lceil>real_of_int a / real_of_int b\<rceil>" by (simp only: zero_less_ceiling)
  then show ?thesis by simp
qed

lemma numWorkgroups_exact:
  assumes "1 \<le> batch" and "1 \<le> M" and "1 \<le> N" and "1 \<le> tM" and "1 \<le> tN"
    and "batch * \<lceil>real_of_int M / real_of_int tM\<rceil> * \<lceil>real_of_int N / real_of_int tN\<rceil> \<le> 2 ^ 53"
  shows "numWorkgroups batch M tM N tN =
     Some (batch * \<lceil>real_of_int M / real_of_int tM\<rceil> * \<lceil>real_of_int N / real_of_int tN\<rceil>)"
proof -
  let ?rows = "\<lceil>real_of_int M / real_of_int tM\<rceil>" and ?cols = "\<lceil>real_of_int N / real_of_int tN\<rceil>"
  have rows: "1 \<le> ?rows" and cols: "1 \<le> ?cols"
    using assms(2-5) by (simp_all only: ceiling_quotient_ge_1)
  have br: "0 \<le> batch * ?rows" using assms(1) rows by simp
  then have "batch * ?rows * 1 \<le> batch * ?rows * ?cols"
    using cols by (rule mult_left_mono [rotated])
  then have le: "batch * ?rows \<le> 2 ^ 53" using assms(6) by simp
  have nn: "0 \<le> batch * ?rows * ?cols" using br cols by simp
  have "\<bar>batch * ?rows\<bar> \<le> 2 ^ 53" "\<bar>batch * ?rows * ?cols\<bar> \<le> 2 ^ 53"
    using br le nn assms(6) by (simp_all only: abs_of_nonneg)
  then show ?thesis
    using assms(4,5) by (intro numWorkgroups_Some) simp_all
qed


lemma bitLength_between: "2 ^ k \<le> n \<Longrightarrow> n < 2 ^ Suc k \<Longrightarrow> bitLength n = Suc k"
proof (induction k arbitrary: n)
  case 0
  then have "n = 1" by simp
  then show ?case by (simp add: bitLength.simps)
next
  case (Suc k)
  have "2 ^ k \<le> n div 2" "n div 2 < 2 ^ Suc k"
    using Suc.prems by simp_all
  then have "bitLength (n div 2) = Suc k" by (rule Suc.IH)
  moreover have "n \<noteq> 0"
  proof -
    have "(0::nat) < 2 ^ Suc k" by simp
    also have "\<dots> \<le> n" by (rule Suc.prems(1))
    finally show ?thesis by simp
  qed
  ultimately show ?case by (subst bitLength.simps) simp
qed

section \<open>Occurrences of a pattern in the kernel text\<close>

lemma digitChar_digit: "d < 10 \<Longrightarrow> digitChar d \<in> set ''0123456789''"
  unfolding digitChar_def by (rule nth_mem) simp

lemma natToString_digits: "set (natToString n) \<subseteq> set ''0123456789''"
proof (induction n rule: natToString.induct)
  case (1 n)
  show ?case
  proof (cases "n < 10")
    case True
    then show ?thesis
      using digitChar_digit [of n] by (subst natToString.simps) simp
  next
    case False
    have "n mod 10 < 10" by simp
    then show ?thesis
      using False 1 digitChar_digit [of "n mod 10"] by (subst natToString.simps) simp
  qed
qed

lemma natToString_nonempty: "natToString n \<noteq> []"
  by (subst natToString.simps) simp

lemma natToString_chars: "set (natToString m) \<subseteq> set ''-0123456789''"
  using natToString_digits [of m] set_subset_Cons [of "''0123456789''" "CHR ''-''"]
  by (rule subset_trans)

lemma numberToString_chars: "set (numberToString n) \<subseteq> set ''-0123456789''"
proof (cases "n < 0")
  case True
  have "CHR ''-'' \<in> set ''-0123456789''" by (simp only: list.set insertI1)
  then have "set (CHR ''-'' # natToString (nat (- n))) \<subseteq> set ''-0123456789''"
    using natToString_chars [of "nat (- n)"] by (simp only: list.set(2) insert_subset)
  then show ?thesis using True by (simp only: numberToString_def if_True)
next
  case False
  then show ?thesis using natToString_chars [of "nat n"] by (simp only: numberToString_def if_False)
qed

lemma numberToString_nonempty: "numberToString n \<noteq> []"
  by (simp add: numberToString_def natToString_nonempty)

lemma prefix_numberToString:
  "p \<notin> set ''-0123456789'' \<Longrightarrow> \<not> prefix (p # ps) (numberToString n @ r)"
proof
  assume p: "p \<notin> set ''-0123456789''" and pre: "prefix (p # ps) (numberToString n @ r)"
  obtain d ds where d: "numberToString n = d # ds"
    using numberToString_nonempty [of n] by (cases "numberToString n") auto
  then have "d \<in> set ''-0123456789''"
    using numberToString_chars [of n] by auto
  moreover have "p = d" using pre d by simp
  ultimately show False using p by simp
qed

lemma countOccurrences_skip:
  "pat \<noteq> [] \<Longrightarrow> set xs \<inter> set pat = {} \<Longrightarrow>
   countOccurrences pat (xs @ r) = countOccurrences pat r"
proof (induction xs)
  case Nil
  then show ?case by simp
next
  case (Cons x xs)
  obtain p ps where pat: "pat = p # ps" using Cons.prems(1) by (cases pat) auto
  have "x \<noteq> p" using Cons.prems(2) pat by auto
  then have "\<not> prefix pat (x # xs @ r)" using pat by simp
  then show ?case using Cons by simp
qed

lemma countOccurrences_number:
  "digitFree pat \<Longrightarrow> countOccurrences pat (numberToString n @ r) = countOccurrences pat r"
proof -
  assume df: "digitFree pat"
  then have "set (numberToString n) \<inter> set pat = {}"
    using numberToString_chars [of n] by (auto simp: digitFree_def list_all_iff)
  moreover have "pat \<noteq> []" using df by (simp add: digitFree_def)
  ultimately show ?thesis by (simp add: countOccurrences_skip)
qed

lemma rightSafe_suffix: "rightSafe q r \<Longrightarrow> suffix us q \<Longrightarrow> us \<noteq> [] \<Longrightarrow> \<not> prefix us r"
proof (induction q)
  case Nil
  then show ?case by simp
next
  case (Cons p ps)
  then show ?case by (auto simp: suffix_Cons)
qed

lemma countOccurrences_snippet:
  assumes "rightSafe (tl pat) r"
  shows "countOccurrences pat (ts @ r) = countOccurrences pat ts + countOccurrences pat r"
proof (induction ts)
  case Nil
  then show ?case by simp
next
  case (Cons c ts)
  have "prefix pat ((c # ts) @ r) \<longleftrightarrow> prefix pat (c # ts)"
  proof
    assume "prefix pat ((c # ts) @ r)"
    then consider "prefix pat (c # ts)" | us where "pat = (c # ts) @ us" "prefix us r"
      using prefix_append [of pat "c # ts" r] by blast
    then show "prefix pat (c # ts)"
    proof cases
      case 1
      then show ?thesis .
    next
      case 2
      show ?thesis
      proof (cases "us = []")
        case True
        then show ?thesis using 2 by simp
      next
        case False
        have "suffix us (tl pat)" using 2(1) by (simp add: suffix_def)
        then show ?thesis using rightSafe_suffix [OF assms _ False] 2(2) by blast
      qed
    qed
  next
    assume "prefix pat (c # ts)"
    then show "prefix pat ((c # ts) @ r)" by (rule prefix_prefix)
  qed
  then have "prefix pat (c # ts @ r) \<longleftrightarrow> prefix pat (c # ts)" by simp
  then show ?case using Cons by simp
qed

lemma countOccurrences_concat_map:
  assumes "\<And>x r. countOccurrences pat (f x @ r) = countOccurrences pat r"
  shows "countOccurrences pat (concat (map f xs) @ r) = countOccurrences pat r"
  by (induction xs) (simp_all add: assms)

lemmas scan = countOccurrences_number prefix_numberToString digitFree_def



lemma loadTiles_count:
  assumes "kernelPattern pat"
  shows "countOccurrences pat (loadTiles wg c a tM tN tK @ r) = countOccurrences pat r"
  using assms unfolding loadTiles_def kernelPattern_def
  by (elim disjE) (simp_all add: scan)

lemma writeBack_count:
  assumes "kernelPattern pat"
  shows "countOccurrences pat (writeBack wg out c tM tN @ r) = countOccurrences pat r"
  using assms unfolding writeBack_def kernelPattern_def
  by (elim disjE) (simp_all add: scan)

lemma sharedMemoryDeclarations_count:
  assumes "kernelPattern pat"
    and "countOccurrences pat aVT = 0" and "countOccurrences pat bVT = 0"
  shows "countOccurrences pat (sharedMemoryDeclarations aVT bVT c a tM tN tK @ r) =
           (if pat = ''var<workgroup>'' then 2 else 0) + countOccurrences pat r"
  using assms unfolding sharedMemoryDeclarations_def kernelPattern_def
  by (elim disjE)
    (simp_all add: scan countOccurrences_snippet [where ts = aVT]
       countOccurrences_snippet [where ts = bVT])

lemma tileIndexRecovery_count:
  assumes "kernelPattern pat"
    and "countOccurrences pat (getMainHeaderString ext) = 0" and "countOccurrences pat oVT = 0"
  shows "countOccurrences pat (tileIndexRecovery ext oVT out tM tN tK isConv @ r) =
           countOccurrences pat r"
  using assms unfolding tileIndexRecovery_def kernelPattern_def
  by (elim disjE)
    (simp_all add: scan countOccurrences_snippet [where ts = "getMainHeaderString ext"]
       countOccurrences_snippet [where ts = oVT])


lemma calcResult_count:
  assumes "kernelPattern pat"
    and "countOccurrences pat aVT = 0" and "countOccurrences pat bVT = 0"
  shows "countOccurrences pat (calcResult aVT bVT out a @ r) = countOccurrences pat r"
proof -
  have bData: "countOccurrences pat
      ((''\<newline>'' @
         ''            let bData'' @ numberToString i @ '' = mm_Bsub[k + '' @ numberToString i @
         ''][localCol];'') @ s) = countOccurrences pat s" for i s
    using assms(1) unfolding kernelPattern_def by (elim disjE) (simp_all add: scan)
  have fma: "countOccurrences pat
      ((''\<newline>'' @
             ''          values['' @ numberToString i @ ''] = fma('' @ bVT @ ''(aData'' @
             (if a = 1 then [] else ''['' @ numberToString j @ '']'') @
             ''), bData'' @ numberToString j @ '', values['' @ numberToString i @ '']);\<newline>'') @ s) =
        countOccurrences pat s" for i j s
    using assms(1,3) unfolding kernelPattern_def
    by (elim disjE) (simp_all add: scan countOccurrences_snippet [where ts = bVT])
  have row: "countOccurrences pat
      ((''aData = mm_Asub[localRow + '' @ numberToString i @ ''][k / '' @
         numberToString a @ ''];'' @
         concat (map (\<lambda>j.
             ''\<newline>'' @
             ''          values['' @ numberToString i @ ''] = fma('' @ bVT @ ''(aData'' @
             (if a = 1 then [] else ''['' @ numberToString j @ '']'') @
             ''), bData'' @ numberToString j @ '', values['' @ numberToString i @ '']);\<newline>'')
           [0..a - 1])) @ s) = countOccurrences pat s" for i s
  proof -
    have "countOccurrences pat
        (''aData = mm_Asub[localRow + '' @ numberToString i @ ''][k / '' @
           numberToString a @ ''];'' @ t) = countOccurrences pat t" for t
      using assms(1) unfolding kernelPattern_def by (elim disjE) (simp_all add: scan)
    then show ?thesis
      using countOccurrences_concat_map [of pat _ "[0..a - 1]" s, OF fma]
      by (simp only: append_assoc)
  qed
  have "countOccurrences pat (''var aData: '' @ aVT @ '';'' @ t) = countOccurrences pat t" for t
    using assms(1,2) unfolding kernelPattern_def
    by (elim disjE) (simp_all add: scan countOccurrences_snippet [where ts = aVT])
  then show ?thesis
    unfolding calcResult_def
    using countOccurrences_concat_map [of pat _ "[0..a - 1]", OF bData]
      countOccurrences_concat_map [of pat _ "[0..out - 1]", OF row]
    by (simp only: append_assoc)
qed


lemma computeValues_count:
  assumes "kernelPattern pat"
    and "countOccurrences pat aVT = 0" and "countOccurrences pat bVT = 0"
  shows "countOccurrences pat (computeValues aVT bVT wg out c a tM tN tK @ r) =
           countOccurrences pat r"
  using assms unfolding computeValues_def kernelPattern_def [of pat]
  by (elim disjE) (simp_all add: scan calcResult_count kernelPattern_def)

lemma reductionLoop_count:
  assumes "kernelPattern pat"
    and "countOccurrences pat aVT = 0" and "countOccurrences pat bVT = 0"
  shows "countOccurrences pat (reductionLoop aVT bVT wg out c a tM tN tK @ r) =
           (if pat = ''workgroupBarrier()'' then 2 else 0) + countOccurrences pat r"
  using assms unfolding reductionLoop_def kernelPattern_def [of pat]
  by (elim disjE) (simp_all add: scan loadTiles_count computeValues_count kernelPattern_def)

lemma quotientsExact_valid:
  assumes "js_rem tN c = Some 0" and "js_rem tM out = Some 0" and "js_rem tK a = Some 0"
  shows "quotientsExact out c a tM tN tK"
  using assms unfolding quotientsExact_def js_rem_zero_iff by simp

lemma makeMatMulLWSSource_valid:
  assumes "js_rem tN c = Some 0" and "js_rem tM out = Some 0" and "js_rem tK a = Some 0"
  shows "makeMatMulLWSSource ext wg out c a tM tN tK isConv =
     Some (sharedMemoryDeclarations (typeSnippet ext a) (typeSnippet ext c) c a tM tN tK @
           tileIndexRecovery ext (typeSnippet ext c) out tM tN tK isConv @
           reductionLoop (typeSnippet ext a) (typeSnippet ext c) wg out c a tM tN tK @
           writeBack wg out c tM tN)"
  using quotientsExact_valid [OF assms] by (simp add: makeMatMulLWSSource_def Let_def)

lemma source_count:
  assumes "kernelPattern pat"
    and "countOccurrences pat aVT = 0" and "countOccurrences pat bVT = 0"
    and "countOccurrences pat (getMainHeaderString ext) = 0"
  shows "countOccurrences pat
          (sharedMemoryDeclarations aVT bVT c a tM tN tK @
           tileIndexRecovery ext bVT out tM tN tK isConv @
           reductionLoop aVT bVT wg out c a tM tN tK @
           writeBack wg out c tM tN) = 2"
proof -
  have "countOccurrences pat (writeBack wg out c tM tN) = 0"
    using writeBack_count [OF assms(1), of wg out c tM tN "[]"] by simp
  then show ?thesis
    using assms(1)
    by (auto simp add: sharedMemoryDeclarations_count [OF assms(1-3)]
        tileIndexRecovery_count [OF assms(1,4,3)] reductionLoop_count [OF assms(1-3)]
        kernelPattern_def)
qed

lemma kernelPattern_simps: "kernelPattern ''var<workgroup>''" "kernelPattern ''workgroupBarrier()''"
  by (simp_all add: kernelPattern_def)

lemma sublist_skip: "sublist xs r \<Longrightarrow> sublist xs (ys @ r) = True"
proof -
  assume "sublist xs r"
  then obtain ps ss where "r = ps @ xs @ ss" by (auto simp: sublist_def)
  then have "ys @ r = (ys @ ps) @ xs @ ss" by simp
  then show ?thesis unfolding sublist_def by blast
qed

lemma sublist_in_middle: "sublist xs m \<Longrightarrow> sublist xs (ps @ m @ ss)"
proof -
  assume "sublist xs m"
  then obtain p s where "m = p @ xs @ s" by (auto simp: sublist_def)
  then have "ps @ m @ ss = (ps @ p) @ xs @ (s @ ss)" by simp
  then show ?thesis unfolding sublist_def by blast
qed



section \<open>The fields of a constructed program and its kernel text\<close>

lemma MatMul_more_fields:
  assumes "MatMulLWSProgram (batch, M, N) K trA trB bias act prelu = Inr p"
  shows "workgroupSize p = (64, 1, 1)"
    and "activation p = act"
    and "addBias p = (bias \<noteq> None)"
    and "hasPreluActivationWeights p = (prelu \<noteq> None)"
    and "variableNames p =
           pushIf (prelu \<noteq> None) ''preluActivationWeights'' (pushIf (bias \<noteq> None) ''bias'' [''A'', ''B''])"
    and "transposeA p = trA"
    and "transposeB p = trB"
    and "fitAOuter p = (js_rem M (tileM p) = Some 0)"
    and "fitBOuter p = (js_rem N (tileN p) = Some 0)"
    and "fitInner p = (js_rem K (tileK p) = Some 0)"
  using assms unfolding MatMulLWSProgram_def Let_def prod.case
  by (elim if_Inr_E, simp)+

lemma Conv_more_fields:
  assumes "Conv2DMMLWSProgram convInfo M N K hasBias act hasPrelu = Inr p"
  shows "workgroupSize p = (64, 1, 1)"
    and "activation p = act"
    and "addBias p = hasBias"
    and "hasPreluActivationWeights p = hasPrelu"
    and "variableNames p =
           pushIf hasPrelu ''preluActivationWeights'' (pushIf hasBias ''bias'' [''x'', ''W''])"
    and "isChannelsLast p = (dataFormat convInfo = ''channelsLast'')"
    and "fitAOuter p = (js_rem M (tileM p) = Some 0)"
    and "fitBOuter p = (js_rem N (tileN p) = Some 0)"
    and "fitInner p = (js_rem K (tileK p) = Some 0)"
  using assms unfolding Conv2DMMLWSProgram_def Let_def
  by (cases "outShape convInfo", simp only: prod.case fst_conv, elim if_Inr_E, simp)+

lemma makeMatMulLWSSource_declarations:
  assumes "js_rem tN c = Some 0" and "js_rem tM out = Some 0" and "js_rem tK a = Some 0"
  shows "\<exists>rest. makeMatMulLWSSource ext wg out c a tM tN tK isConv =
     Some (''\<newline>'' @ ''  '' @
           (''var<workgroup> mm_Asub: array<array<'' @ typeSnippet ext a @ '', '' @
            numberToString (tK div a) @ ''>, '' @ numberToString tM @ ''>;'') @ rest)"
  unfolding makeMatMulLWSSource_valid [OF assms] sharedMemoryDeclarations_def
  by simp

lemma MatMul_getUserCode:
  assumes "MatMulLWSProgram (batch, M, N) K trA trB bias act prelu = Inr p"
  shows "getUserCode ext p =
     Some (''\<newline>'' @ ''      '' @
         activationFnSnippet ext (activation p) (hasPreluActivationWeights p) (components p = 4) @
         ''\<newline>'' @ ''      '' @
         matMulReadWriteFnSource ext (addBias p) (activation p) (transposeA p)
           (transposeB p) (fitAOuter p) (fitBOuter p) (fitInner p) (components p) (aComponents p) @
         ''\<newline>'' @ ''      '' @
         the (makeMatMulLWSSource ext 64 (outputNumber p) (components p) (aComponents p)
                (tileM p) (tileN p) (tileK p) False) @
         ''\<newline>'' @ ''    '')"
  using makeMatMulLWSSource_valid [OF MatMul_fields(8-10) [OF assms], of ext 64 False]
    MatMul_more_fields(1) [OF assms]
  by (simp add: getUserCode_def)

lemma Conv_getUserCode:
  assumes "Conv2DMMLWSProgram convInfo M N K hasBias act hasPrelu = Inr p"
  shows "getUserCode_conv ext p =
     Some (''\<newline>'' @ ''    '' @
         conv2dCommonSnippet ext (isChannelsLast p) (fitAOuter p) (fitBOuter p)
           (fitInner p) (addBias p) (activation p) (hasPreluActivationWeights p)
           (aComponents p) (components p) (components p) @
         ''\<newline>'' @ ''    '' @
         the (makeMatMulLWSSource ext 64 (outputNumber p) (components p) (aComponents p)
                (tileM p) (tileN p) (tileK p) True) @
         ''\<newline>'' @ ''  '')"
  using makeMatMulLWSSource_valid [OF Conv_fields(9-11) [OF assms], of ext 64 True]
    Conv_more_fields(1) [OF assms]
  by (simp add: getUserCode_conv_def)


lemma getUserCode_conv_sublist:
  assumes "Conv2DMMLWSProgram convInfo M N K hasBias act hasPrelu = Inr p"
    and "makeMatMulLWSSource ext 64 (outputNumber p) (components p) (aComponents p)
       (tileM p) (tileN p) (tileK p) True = Some src"
    and "sublist xs src"
  shows "\<exists>u. getUserCode_conv ext p = Some u \<and> sublist xs u"
proof -
  have "sublist xs
     ((''\<newline>'' @ ''    '' @
         conv2dCommonSnippet ext (isChannelsLast p) (fitAOuter p) (fitBOuter p)
           (fitInner p) (addBias p) (activation p) (hasPreluActivationWeights p)
           (aComponents p) (components p) (components p) @
         ''\<newline>'' @ ''    '') @ src @ (''\<newline>'' @ ''  ''))"
    using assms(3) by (rule sublist_in_middle)
  then show ?thesis
    unfolding Conv_getUserCode [OF assms(1)] assms(2) option.sel by simp
qed



lemma numberToString_digit:
  "numberToString 0 = ''0''" "numberToString 1 = ''1''" "numberToString 2 = ''2''"
  "numberToString 3 = ''3''" "numberToString 4 = ''4''" "numberToString 8 = ''8''"
  "numberToString 16 = ''16''" "numberToString 32 = ''32''"
  by (simp_all add: numberToString_def natToString.simps digitChar_def)

lemmas find = sublist_Cons_right sublist_skip prefix_numberToString

lemma loadTiles_writes:
  "sublist
     (''mm_Asub[inputRow][inputCol] = mm_readA(batchA, i32(tileRowStart + inputRow), i32(kStart + inputCol * '' @
      numberToString a @ ''));'')
     (loadTiles wg c a tM tN tK)"
  "sublist
     (''mm_Bsub[inputRow][inputCol] = mm_readB(batchB, i32(kStart + inputRow), i32(tileColStart + inputCol * '' @
      numberToString c @ ''));'')
     (loadTiles wg c a tM tN tK)"
  unfolding loadTiles_def by (simp_all add: find)

lemma upto_from_0: "1 \<le> n \<Longrightarrow> [0..n - 1] = 0 # [1..n - 1]"
  by (simp add: upto_rec1)

lemma sublist_after: "sublist xs r \<Longrightarrow> sublist xs (ys @ r)"
  using sublist_skip [of xs r ys] by simp

lemma sublist_concat_first: "sublist xs (f x) \<Longrightarrow> sublist xs (concat (map f (x # rest)))"
proof -
  assume "sublist xs (f x)"
  then have "sublist xs ([] @ f x @ concat (map f rest))" by (rule sublist_in_middle)
  then show ?thesis by simp
qed

lemma calcResult_accumulates:
  assumes "1 \<le> out" and "1 \<le> a"
  shows "sublist
     (''aData = mm_Asub[localRow + 0][k / '' @ numberToString a @ ''];'' @
      ''\<newline>'' @
      ''          values[0] = fma('' @ bVT @ ''(aData'' @ (if a = 1 then [] else ''[0]'') @
      ''), bData0, values[0]);\<newline>'')
     (calcResult aVT bVT out a)"
  unfolding calcResult_def upto_from_0 [OF assms(1)] upto_from_0 [OF assms(2)]
  apply (rule sublist_after, rule sublist_after, rule sublist_after, rule sublist_after)
  apply (rule sublist_concat_first)
  apply (simp add: numberToString_digit sublist_Cons_right)
  done

lemma computeValues_accumulates:
  assumes "1 \<le> out" and "1 \<le> a"
  shows "sublist
     (''aData = mm_Asub[localRow + 0][k / '' @ numberToString a @ ''];'' @
      ''\<newline>'' @
      ''          values[0] = fma('' @ bVT @ ''(aData'' @ (if a = 1 then [] else ''[0]'') @
      ''), bData0, values[0]);\<newline>'')
     (computeValues aVT bVT wg out c a tM tN tK)"
proof -
  have "\<exists>ps ss. computeValues aVT bVT wg out c a tM tN tK = ps @ calcResult aVT bVT out a @ ss"
    unfolding computeValues_def
    by (metis append.assoc)
  then show ?thesis
    using sublist_in_middle [OF calcResult_accumulates [OF assms]] by metis
qed

section \<open>The fields of the shader key\<close>

lemma digitChar_inj: "a < 10 \<Longrightarrow> b < 10 \<Longrightarrow> digitChar a = digitChar b \<Longrightarrow> a = b"
proof -
  assume a: "a < 10" and b: "b < 10" and eq: "digitChar a = digitChar b"
  have "distinct ''0123456789''" by simp
  moreover have "a < length ''0123456789''" "b < length ''0123456789''" using a b by simp_all
  ultimately show "a = b" using eq unfolding digitChar_def by (simp only: nth_eq_iff_index_eq)
qed

lemma natToString_small: "n < 10 \<Longrightarrow> natToString n = [digitChar n]"
  by (subst natToString.simps) simp

lemma natToString_large:
  "\<not> n < 10 \<Longrightarrow> natToString n = natToString (n div 10) @ [digitChar (n mod 10)]"
  by (subst natToString.simps) simp

lemma natToString_inj: "natToString n = natToString m \<Longrightarrow> n = m"
proof (induction n arbitrary: m rule: natToString.induct)
  case (1 n)
  show ?case
  proof (cases "n < 10")
    case True
    note n = this
    show ?thesis
    proof (cases "m < 10")
      case True
      then show ?thesis
        using 1(2) n digitChar_inj [of n m] by (simp add: natToString_small)
    next
      case False
      then have "natToString (m div 10) = []"
        using 1(2) n by (simp add: natToString_small natToString_large)
      then show ?thesis using natToString_nonempty by blast
    qed
  next
    case False
    note n = this
    show ?thesis
    proof (cases "m < 10")
      case True
      then have "natToString (n div 10) = []"
        using 1(2) n by (simp add: natToString_small natToString_large)
      then show ?thesis using natToString_nonempty by blast
    next
      case False
      then have eq: "natToString (n div 10) = natToString (m div 10)"
        "digitChar (n mod 10) = digitChar (m mod 10)"
        using 1(2) n by (simp_all add: natToString_large)
      have "n div 10 = m div 10" using 1(1) [OF n eq(1)] .
      moreover have "n mod 10 = m mod 10"
        using digitChar_inj [OF _ _ eq(2)] by simp
      ultimately show ?thesis by (metis div_mult_mod_eq)
    qed
  qed
qed

lemma minus_not_digit: "CHR ''-'' \<notin> set (natToString n)"
  using natToString_digits [of n] by auto

lemma numberToString_inj: "numberToString n = numberToString m \<Longrightarrow> n = m"
proof -
  assume eq: "numberToString n = numberToString m"
  have hd_neg: "k < 0 \<Longrightarrow> hd (numberToString k) = CHR ''-''" for k
    by (simp add: numberToString_def)
  have hd_pos: "\<not> k < 0 \<Longrightarrow> hd (numberToString k) \<noteq> CHR ''-''" for k
    using minus_not_digit [of "nat k"] natToString_nonempty [of "nat k"]
    by (cases "natToString (nat k)") (auto simp: numberToString_def)
  show "n = m"
  proof (cases "n < 0")
    case True
    then have "m < 0" using eq hd_neg [of n] hd_pos [of m] by auto
    then have "nat (- n) = nat (- m)"
      using eq True natToString_inj by (simp add: numberToString_def)
    then show ?thesis using True \<open>m < 0\<close> by simp
  next
    case False
    then have "\<not> m < 0" using eq hd_neg [of m] hd_pos [of n] by auto
    then have "nat n = nat m"
      using eq False natToString_inj by (simp add: numberToString_def)
    then show ?thesis using False \<open>\<not> m < 0\<close> by simp
  qed
qed

lemma boolToString_inj: "boolToString a = boolToString b \<Longrightarrow> a = b"
  by (cases a; cases b) (simp_all add: boolToString_def)

lemma numberToString_no_underscore: "CHR ''_'' \<notin> set (numberToString n)"
  using numberToString_chars [of n] by auto

lemma boolToString_no_underscore: "CHR ''_'' \<notin> set (boolToString b)"
  by (simp add: boolToString_def)

lemma last_field:
  assumes "c \<notin> set a" and "c \<notin> set b" and "x @ c # a = y @ c # b"
  shows "x = y \<and> a = b"
  using assms
proof (induction x arbitrary: y)
  case Nil
  then show ?case by (cases y) auto
next
  case (Cons u x)
  then show ?case by (cases y) auto
qed


lemma joined_fields_inj:
  assumes "length fs = length gs"
    and "\<forall>f \<in> set fs. c \<notin> set f" and "\<forall>g \<in> set gs. c \<notin> set g"
    and "x @ concat (map ((#) c) fs) = y @ concat (map ((#) c) gs)"
  shows "x = y \<and> fs = gs"
  using assms
proof (induction fs arbitrary: gs rule: rev_induct)
  case Nil
  then show ?case by simp
next
  case (snoc f fs)
  obtain g gs' where gs: "gs = gs' @ [g]"
    using snoc.prems(1) by (cases gs rule: rev_cases) auto
  have "(x @ concat (map ((#) c) fs)) @ c # f = (y @ concat (map ((#) c) gs')) @ c # g"
    using snoc.prems(4) gs by simp
  moreover have "c \<notin> set f" "c \<notin> set g"
    using snoc.prems(2,3) gs by simp_all
  ultimately have eq: "x @ concat (map ((#) c) fs) = y @ concat (map ((#) c) gs')" "f = g"
    using last_field [of c f g] by blast+
  have "x = y \<and> fs = gs'"
    using snoc.IH [of gs'] snoc.prems(1,2,3) gs eq(1) by simp
  then show ?case using gs eq(2) by simp
qed

lemma activationToString_inj:
  "a \<noteq> Some ''null'' \<Longrightarrow> b \<noteq> Some ''null'' \<Longrightarrow>
   activationToString a = activationToString b \<Longrightarrow> a = b"
  by (cases a; cases b) (simp_all add: activationToString_def)

lemma MatMul_shaderKey:
  assumes "MatMulLWSProgram (batch, M, N) K trA trB bias act prelu = Inr p"
  shows "shaderKey p =
     (''matMulLWS_'' @ activationToString (activation p)) @
     concat (map ((#) CHR ''_'')
       [boolToString (transposeA p), boolToString (transposeB p), boolToString (fitAOuter p),
        boolToString (fitBOuter p), boolToString (fitInner p), numberToString (tileK p),
        numberToString (tileM p), numberToString (tileN p), numberToString (components p),
        numberToString (aComponents p), numberToString (outputNumber p)])"
  using assms unfolding MatMulLWSProgram_def Let_def prod.case
  by (elim if_Inr_E, simp)

lemma Conv_shaderKey:
  assumes "Conv2DMMLWSProgram convInfo M N K hasBias act hasPrelu = Inr p"
  shows "shaderKey p =
     (''conv2DMMLWS_'' @ activationToString (activation p) @ ''}'') @
     concat (map ((#) CHR ''_'')
       [boolToString (fitAOuter p), boolToString (fitBOuter p), boolToString (fitInner p),
        numberToString (tileK p), numberToString (tileM p), numberToString (tileN p),
        numberToString (components p), numberToString (aComponents p),
        numberToString (outputNumber p)])"
  using assms unfolding Conv2DMMLWSProgram_def Let_def
  by (cases "outShape convInfo", simp only: prod.case, elim if_Inr_E, simp)

lemma MatMul_key_fields:
  assumes p: "MatMulLWSProgram (batch, M, N) K trA trB bias act prelu = Inr p"
    and p': "MatMulLWSProgram (batch', M', N') K' trA' trB' bias' act' prelu' = Inr p'"
    and "act \<noteq> Some ''null''" and "act' \<noteq> Some ''null''"
    and key: "shaderKey p = shaderKey p'"
  shows "activation p = activation p'" and "transposeA p = transposeA p'"
    and "transposeB p = transposeB p'" and "fitAOuter p = fitAOuter p'"
    and "fitBOuter p = fitBOuter p'" and "fitInner p = fitInner p'"
    and "tileK p = tileK p'" and "tileM p = tileM p'" and "tileN p = tileN p'"
    and "components p = components p'" and "aComponents p = aComponents p'"
    and "outputNumber p = outputNumber p'"
proof -
  let ?fs = "\<lambda>p :: MatMulLWSProgram.
       [boolToString (transposeA p), boolToString (transposeB p), boolToString (fitAOuter p),
        boolToString (fitBOuter p), boolToString (fitInner p), numberToString (tileK p),
        numberToString (tileM p), numberToString (tileN p), numberToString (components p),
        numberToString (aComponents p), numberToString (outputNumber p)]"
  have "(''matMulLWS_'' @ activationToString (activation p)) @ concat (map ((#) CHR ''_'') (?fs p)) =
        (''matMulLWS_'' @ activationToString (activation p')) @ concat (map ((#) CHR ''_'') (?fs p'))"
    using key unfolding MatMul_shaderKey [OF p] MatMul_shaderKey [OF p'] .
  moreover have "length (?fs p) = length (?fs p')" by simp
  moreover have "\<forall>f \<in> set (?fs p). CHR ''_'' \<notin> set f" "\<forall>f \<in> set (?fs p'). CHR ''_'' \<notin> set f"
    by (simp_all add: numberToString_no_underscore boolToString_no_underscore)
  ultimately have
    "''matMulLWS_'' @ activationToString (activation p) =
     ''matMulLWS_'' @ activationToString (activation p') \<and> ?fs p = ?fs p'"
    by (rule joined_fields_inj [rotated 3])
  then have a: "activationToString (activation p) = activationToString (activation p')"
    and fs: "?fs p = ?fs p'"
    by simp_all
  show "activation p = activation p'"
    using a assms(3,4) MatMul_more_fields(2) [OF p] MatMul_more_fields(2) [OF p']
    by (simp add: activationToString_inj)
  show "transposeA p = transposeA p'" "transposeB p = transposeB p'"
    "fitAOuter p = fitAOuter p'" "fitBOuter p = fitBOuter p'" "fitInner p = fitInner p'"
    using fs boolToString_inj by simp_all
  show "tileK p = tileK p'" "tileM p = tileM p'" "tileN p = tileN p'"
    "components p = components p'" "aComponents p = aComponents p'"
    "outputNumber p = outputNumber p'"
    using fs numberToString_inj by simp_all
qed

lemma Conv_key_fields:
  assumes p: "Conv2DMMLWSProgram convInfo M N K hasBias act hasPrelu = Inr p"
    and p': "Conv2DMMLWSProgram convInfo' M' N' K' hasBias' act' hasPrelu' = Inr p'"
    and "act \<noteq> Some ''null''" and "act' \<noteq> Some ''null''"
    and key: "shaderKey p = shaderKey p'"
  shows "activation p = activation p'" and "fitAOuter p = fitAOuter p'"
    and "fitBOuter p = fitBOuter p'" and "fitInner p = fitInner p'"
    and "tileK p = tileK p'" and "tileM p = tileM p'" and "tileN p = tileN p'"
    and "components p = components p'" and "aComponents p = aComponents p'"
    and "outputNumber p = outputNumber p'"
proof -
  let ?fs = "\<lambda>p :: Conv2DMMLWSProgram.
       [boolToString (fitAOuter p), boolToString (fitBOuter p), boolToString (fitInner p),
        numberToString (tileK p), numberToString (tileM p), numberToString (tileN p),
        numberToString (components p), numberToString (aComponents p),
        numberToString (outputNumber p)]"
  have "(''conv2DMMLWS_'' @ activationToString (activation p) @ ''}'') @
          concat (map ((#) CHR ''_'') (?fs p)) =
        (''conv2DMMLWS_'' @ activationToString (activation p') @ ''}'') @
          concat (map ((#) CHR ''_'') (?fs p'))"
    using key unfolding Conv_shaderKey [OF p] Conv_shaderKey [OF p'] .
  moreover have "length (?fs p) = length (?fs p')" by simp
  moreover have "\<forall>f \<in> set (?fs p). CHR ''_'' \<notin> set f" "\<forall>f \<in> set (?fs p'). CHR ''_'' \<notin> set f"
    by (simp_all add: numberToString_no_underscore boolToString_no_underscore)
  ultimately have
    "''conv2DMMLWS_'' @ activationToString (activation p) @ ''}'' =
     ''conv2DMMLWS_'' @ activationToString (activation p') @ ''}'' \<and> ?fs p = ?fs p'"
    by (rule joined_fields_inj [rotated 3])
  then have a: "activationToString (activation p) = activationToString (activation p')"
    and fs: "?fs p = ?fs p'"
    by simp_all
  show "activation p = activation p'"
    using a assms(3,4) Conv_more_fields(2) [OF p] Conv_more_fields(2) [OF p']
    by (simp add: activationToString_inj)
  show "fitAOuter p = fitAOuter p'" "fitBOuter p = fitBOuter p'" "fitInner p = fitInner p'"
    using fs boolToString_inj by simp_all
  show "tileK p = tileK p'" "tileM p = tileM p'" "tileN p = tileN p'"
    "components p = components p'" "aComponents p = aComponents p'"
    "outputNumber p = outputNumber p'"
    using fs numberToString_inj by simp_all
qed

section \<open>Tile configuration\<close>

text \<open>
  Claim C1. For every batch, M, N and K that are at least 1, both constructors build a
  program (the branch that throws is not taken), and the tile configuration of that
  program satisfies the three divisibility invariants: \<open>tileN % components\<close>,
  \<open>tileM % outputNumber\<close> and \<open>tileK % aComponents\<close> are all 0.
\<close>

theorem tile_invariants_hold:
  assumes "1 \<le> batch" and "1 \<le> M" and "1 \<le> N" and "1 \<le> K"
  shows "(\<exists>p. MatMulLWSProgram (batch, M, N) K trA trB bias act prelu = Inr p \<and>
            js_rem (tileN p) (components p) = Some 0 \<and>
            js_rem (tileM p) (outputNumber p) = Some 0 \<and>
            js_rem (tileK p) (aComponents p) = Some 0) \<and>
         (\<exists>q. Conv2DMMLWSProgram \<lparr>outShape = (batch, h, w, c), dataFormat = fmt\<rparr> M N K
                 hasBias act hasPrelu = Inr q \<and>
            js_rem (tileN q) (components q) = Some 0 \<and>
            js_rem (tileM q) (outputNumber q) = Some 0 \<and>
            js_rem (tileK q) (aComponents q) = Some 0)"
proof
  obtain p where p: "MatMulLWSProgram (batch, M, N) K trA trB bias act prelu = Inr p"
    using MatMul_constructs [OF assms(2,3)] by blast
  show "\<exists>p. MatMulLWSProgram (batch, M, N) K trA trB bias act prelu = Inr p \<and>
            js_rem (tileN p) (components p) = Some 0 \<and>
            js_rem (tileM p) (outputNumber p) = Some 0 \<and>
            js_rem (tileK p) (aComponents p) = Some 0"
    using p MatMul_fields(8-10) [OF p] by blast
next
  let ?ci = "\<lparr>outShape = (batch, h, w, c), dataFormat = fmt\<rparr>"
  obtain q where q: "Conv2DMMLWSProgram ?ci M N K hasBias act hasPrelu = Inr q"
    using Conv_constructs [OF assms(2,3)] by blast
  show "\<exists>q. Conv2DMMLWSProgram ?ci M N K hasBias act hasPrelu = Inr q \<and>
            js_rem (tileN q) (components q) = Some 0 \<and>
            js_rem (tileM q) (outputNumber q) = Some 0 \<and>
            js_rem (tileK q) (aComponents q) = Some 0"
    using q Conv_fields(9-11) [OF q] by blast
qed

theorem tile_invariants_hold_witness:
  "(1::int) \<le> 2 \<and> (1::int) \<le> 37 \<and> (1::int) \<le> 40 \<and> (1::int) \<le> 1013 \<and>
   (\<exists>p. MatMulLWSProgram (2, 37, 40) 1013 False True (None :: unit option) None None = Inr p \<and>
            js_rem (tileN p) (components p) = Some 0 \<and>
            js_rem (tileM p) (outputNumber p) = Some 0 \<and>
            js_rem (tileK p) (aComponents p) = Some 0) \<and>
   (\<exists>q. Conv2DMMLWSProgram \<lparr>outShape = (2, 5, 8, 40), dataFormat = ''channelsLast''\<rparr> 37 40 1013
                 True None False = Inr q \<and>
            js_rem (tileN q) (components q) = Some 0 \<and>
            js_rem (tileM q) (outputNumber q) = Some 0 \<and>
            js_rem (tileK q) (aComponents q) = Some 0)"
  using tile_invariants_hold [of 2 37 40 1013 False True "None :: unit option" None None
      5 8 40 "''channelsLast''" True False]
  by simp

text \<open>
  Claim C3 (as the code has it). \<open>MatMulLWSProgram\<close> built for the output shape
  (1, 64, 64) and shared dimension 64 has components 4, aComponents 4, tileM 32, tileN 32,
  outputNumber 4 and dispatch [4, 1, 1]; its tileK is 16, the value the constructor
  chooses for every K from 32 to 1000, and not 32.
\<close>

theorem matmul_64_configuration:
  "\<exists>p. MatMulLWSProgram (1, 64, 64) 64 False False (None :: unit option) None None = Inr p \<and>
       components p = 4 \<and> aComponents p = 4 \<and> tileM p = 32 \<and> tileN p = 32 \<and>
       tileK p = 16 \<and> outputNumber p = 4 \<and> dispatch p = (Some (1 * 2 * 2), 1, 1)"
proof -
  obtain p where p: "MatMulLWSProgram (1, 64, 64) 64 False False (None :: unit option) None None = Inr p"
    using MatMul_constructs [of 64 64 1 64 False False "None :: unit option" None None] by auto
  have tiles: "tileM p = 32" "tileN p = 32" "tileK p = 16"
    using MatMul_fields(3-5) [OF p] by simp_all
  have "components p = 4" "aComponents p = 4" "outputNumber p = 4"
    using MatMul_fields(1,2,6) [OF p] tiles
    by (simp_all add: js_rem_zero_iff getMaxComponents_def)
  moreover have "dispatch p = (Some (1 * 2 * 2), 1, 1)"
    using MatMul_fields(7) [OF p] tiles by (simp add: numWorkgroups_Some)
  ultimately show ?thesis using p tiles by blast
qed

theorem matmul_64_configuration_witness:
  "\<exists>p. MatMulLWSProgram (1, 64, 64) 64 False False (None :: unit option) None None = Inr p \<and>
       js_rem (tileK p) (aComponents p) = Some 0 \<and> js_rem 64 (tileK p) = Some 0 \<and>
       dispatch p = (Some 4, 1, 1)"
proof -
  obtain p where
    p: "MatMulLWSProgram (1, 64, 64) 64 False False (None :: unit option) None None = Inr p" and
    v: "aComponents p = 4" "tileK p = 16" "dispatch p = (Some (1 * 2 * 2), 1, 1)"
    using matmul_64_configuration by blast
  have "js_rem (tileK p) (aComponents p) = Some 0" "js_rem 64 (tileK p) = Some 0"
    "dispatch p = (Some 4, 1, 1)"
    using v by (simp_all add: js_rem_def)
  with p show ?thesis by blast
qed

text \<open>
  The scenario as the specification words it fails on tileK: the constructor gives 16.
\<close>

theorem matmul_64_tileK_counterexample:
  "map_sum id tileK
     (MatMulLWSProgram (1, 64, 64) 64 False False (None :: unit option) None None) = Inr 16"
  by (simp add: MatMulLWSProgram_def Let_def js_rem_def getMaxComponents_def)

text \<open>
  Claim C4 (as the code has it). In every program either constructor builds, outputNumber
  is tileM when tileM is below 4. Otherwise it is the first of the file's own candidate
  list that divides tileM: 4, 2, 1 in the matrix-multiply program, and 4, 3, 2, 1 in the
  convolution program, whose file has its own selector.
\<close>

theorem outputNumber_from_tileM:
  "(MatMulLWSProgram (batch, M, N) K trA trB bias act prelu = Inr p \<longrightarrow>
      outputNumber p = (if tileM p < 4 then tileM p else select_width (tileM p) [4, 2, 1])) \<and>
   (Conv2DMMLWSProgram convInfo M' N' K' hasBias act' hasPrelu = Inr q \<longrightarrow>
      outputNumber q = (if tileM q < 4 then tileM q else select_width (tileM q) [4, 3, 2, 1]))"
  using MatMul_fields(6) [of batch M N K trA trB bias act prelu p]
    Conv_fields(6) [of convInfo M' N' K' hasBias act' hasPrelu q]
  by (simp only: getMaxComponents_select getMaxComponents_conv_select) blast

theorem outputNumber_from_tileM_witness:
  "\<exists>p q. MatMulLWSProgram (1, 9, 64) 64 False False (None :: unit option) None None = Inr p \<and>
      Conv2DMMLWSProgram \<lparr>outShape = (1, 3, 3, 64), dataFormat = ''channelsLast''\<rparr> 9 64 64
        False None False = Inr q \<and>
      outputNumber p = (if tileM p < 4 then tileM p else select_width (tileM p) [4, 2, 1]) \<and>
      outputNumber q = (if tileM q < 4 then tileM q else select_width (tileM q) [4, 3, 2, 1])"
proof -
  obtain p where p: "MatMulLWSProgram (1, 9, 64) 64 False False (None :: unit option) None None = Inr p"
    using MatMul_constructs [of 9 64 1 64 False False "None :: unit option" None None] by auto
  obtain q where q:
    "Conv2DMMLWSProgram \<lparr>outShape = (1, 3, 3, 64), dataFormat = ''channelsLast''\<rparr> 9 64 64
        False None False = Inr q"
    using Conv_constructs [of 9 64 "\<lparr>outShape = (1, 3, 3, 64), dataFormat = ''channelsLast''\<rparr>" 64
        False None False]
    by auto
  show ?thesis
    using p q outputNumber_from_tileM [of 1 9 64 64 False False "None :: unit option" None None p
        "\<lparr>outShape = (1, 3, 3, 64), dataFormat = ''channelsLast''\<rparr>" 9 64 64 False None False q]
    by blast
qed

text \<open>
  With the candidate list 4, 2, 1 the claim fails for the convolution program: for M = 9
  it derives tileM = 9 and outputNumber = 3, where the list 4, 2, 1 selects 1.
\<close>

theorem conv_outputNumber_counterexample:
  "map_sum id outputNumber
     (Conv2DMMLWSProgram \<lparr>outShape = (1, 3, 3, 64), dataFormat = ''channelsLast''\<rparr> 9 64 64
        False None False) = Inr 3 \<and>
   map_sum id tileM
     (Conv2DMMLWSProgram \<lparr>outShape = (1, 3, 3, 64), dataFormat = ''channelsLast''\<rparr> 9 64 64
        False None False) = Inr 9 \<and>
   select_width 9 [4, 2, 1] = 1"
  by (simp add: Conv2DMMLWSProgram_def Let_def js_rem_def getMaxComponents_conv_def)

section \<open>The vector-width selector\<close>

text \<open>
  Claim C5. The selector applied to the reduction dimension K returns a width whose
  remainder into K is 0, the width is one of the selector's candidates (4, 3, 2, 1 in the
  convolution file, 4, 2, 1 in the matrix-multiply file), no larger candidate of that list
  divides K, and so the result is 1 when no larger candidate divides. It is the first
  dividing candidate of the list read in descending order.
\<close>

theorem getMaxComponents_divides_maximal:
  "js_rem K (getMaxComponents_conv K) = Some 0 \<and>
   getMaxComponents_conv K \<in> set [4, 3, 2, 1] \<and>
   (\<forall>c \<in> set [4, 3, 2, 1]. getMaxComponents_conv K < c \<longrightarrow> js_rem K c \<noteq> Some 0) \<and>
   getMaxComponents_conv K = select_width K [4, 3, 2, 1] \<and>
   js_rem K (getMaxComponents K) = Some 0 \<and>
   getMaxComponents K \<in> set [4, 2, 1] \<and>
   (\<forall>c \<in> set [4, 2, 1]. getMaxComponents K < c \<longrightarrow> js_rem K c \<noteq> Some 0) \<and>
   getMaxComponents K = select_width K [4, 2, 1]"
proof -
  have "js_rem K (getMaxComponents_conv K) = Some 0" "js_rem K (getMaxComponents K) = Some 0"
    by (simp_all add: js_rem_zero_iff getMaxComponents_dvd getMaxComponents_conv_dvd
        getMaxComponents_nonzero getMaxComponents_conv_nonzero)
  moreover have "\<forall>c \<in> set [4, 3, 2, 1]. getMaxComponents_conv K < c \<longrightarrow> js_rem K c \<noteq> Some 0"
    by (simp add: getMaxComponents_conv_def)
  moreover have "\<forall>c \<in> set [4, 2, 1]. getMaxComponents K < c \<longrightarrow> js_rem K c \<noteq> Some 0"
    by (simp add: getMaxComponents_def)
  ultimately show ?thesis
    using getMaxComponents_cases [of K] getMaxComponents_conv_cases [of K]
      getMaxComponents_select [of K] getMaxComponents_conv_select [of K]
    by simp
qed

theorem getMaxComponents_divides_maximal_witness:
  "getMaxComponents_conv 9 = 3 \<and> getMaxComponents 9 = 1 \<and> getMaxComponents_conv 7 = 1 \<and>
   js_rem 9 (getMaxComponents_conv 9) = Some 0 \<and> js_rem 9 4 \<noteq> Some 0 \<and>
   js_rem 9 (getMaxComponents 9) = Some 0 \<and> js_rem 9 2 \<noteq> Some 0"
  using getMaxComponents_divides_maximal [of 9] getMaxComponents_divides_maximal [of 7]
  by (simp add: getMaxComponents_conv_def getMaxComponents_def js_rem_def)

section \<open>Dispatch geometry\<close>

text \<open>
  Claim C6. For batch, M, N and K that are at least 1, with M and N integers that a double
  holds exactly and the workgroup count batch * ceil(M / tileM) * ceil(N / tileN) at most
  \<open>2 ^ 53\<close> (so that the two double products of the source are exact), the dispatch of the
  program either constructor builds is [batch * ceil(M / tileM) * ceil(N / tileN), 1, 1]:
  the whole workgroup count is on the X axis, Y and Z are 1.
\<close>

theorem dispatch_geometry:
  assumes "1 \<le> batch" and "1 \<le> M" and "1 \<le> N" and "1 \<le> K"
    and "M \<le> 2 ^ 53" and "N \<le> 2 ^ 53"
    and "batch * \<lceil>real_of_int M / real_of_int (if M < 32 then M else 32)\<rceil> *
           \<lceil>real_of_int N / real_of_int (if N < 32 then N else 32)\<rceil> \<le> 2 ^ 53"
  shows "(\<exists>p. MatMulLWSProgram (batch, M, N) K trA trB bias act prelu = Inr p \<and>
            dispatch p =
              (Some (batch * \<lceil>real_of_int M / real_of_int (tileM p)\<rceil> *
                       \<lceil>real_of_int N / real_of_int (tileN p)\<rceil>), 1, 1)) \<and>
         (\<exists>q. Conv2DMMLWSProgram \<lparr>outShape = (batch, h, w, c), dataFormat = fmt\<rparr> M N K
                 hasBias act hasPrelu = Inr q \<and>
            dispatch q =
              (Some (batch * \<lceil>real_of_int M / real_of_int (tileM q)\<rceil> *
                       \<lceil>real_of_int N / real_of_int (tileN q)\<rceil>), 1, 1))"
proof
  obtain p where p: "MatMulLWSProgram (batch, M, N) K trA trB bias act prelu = Inr p"
    using MatMul_constructs [OF assms(2,3)] by blast
  have t: "tileM p = (if M < 32 then M else 32)" "tileN p = (if N < 32 then N else 32)"
    using MatMul_fields(3,4) [OF p] by simp_all
  have "1 \<le> tileM p" "1 \<le> tileN p"
    using t assms(2,3) by simp_all
  then have "dispatch p =
      (Some (batch * \<lceil>real_of_int M / real_of_int (tileM p)\<rceil> *
               \<lceil>real_of_int N / real_of_int (tileN p)\<rceil>), 1, 1)"
    using MatMul_fields(7) [OF p] assms(7) numWorkgroups_exact [OF assms(1-3)]
    unfolding t [symmetric] by simp
  with p show "\<exists>p. MatMulLWSProgram (batch, M, N) K trA trB bias act prelu = Inr p \<and>
            dispatch p =
              (Some (batch * \<lceil>real_of_int M / real_of_int (tileM p)\<rceil> *
                       \<lceil>real_of_int N / real_of_int (tileN p)\<rceil>), 1, 1)"
    by blast
next
  let ?ci = "\<lparr>outShape = (batch, h, w, c), dataFormat = fmt\<rparr>"
  obtain q where q: "Conv2DMMLWSProgram ?ci M N K hasBias act hasPrelu = Inr q"
    using Conv_constructs [OF assms(2,3)] by blast
  have t: "tileM q = (if M < 32 then M else 32)" "tileN q = (if N < 32 then N else 32)"
    using Conv_fields(3,4) [OF q] by simp_all
  have "1 \<le> tileM q" "1 \<le> tileN q"
    using t assms(2,3) by simp_all
  then have "dispatch q =
      (Some (batch * \<lceil>real_of_int M / real_of_int (tileM q)\<rceil> *
               \<lceil>real_of_int N / real_of_int (tileN q)\<rceil>), 1, 1)"
    using Conv_fields(7) [OF q] assms(7) numWorkgroups_exact [OF assms(1-3)]
    unfolding t [symmetric] by simp
  with q show "\<exists>q. Conv2DMMLWSProgram ?ci M N K hasBias act hasPrelu = Inr q \<and>
            dispatch q =
              (Some (batch * \<lceil>real_of_int M / real_of_int (tileM q)\<rceil> *
                       \<lceil>real_of_int N / real_of_int (tileN q)\<rceil>), 1, 1)"
    by blast
qed

theorem dispatch_geometry_witness:
  "(1::int) \<le> 3 \<and> (1::int) \<le> 70 \<and> (1::int) \<le> 17 \<and> (1::int) \<le> 5 \<and>
   (70::int) \<le> 2 ^ 53 \<and> (17::int) \<le> 2 ^ 53 \<and>
   (3::int) * \<lceil>real_of_int 70 / real_of_int 32\<rceil> * \<lceil>real_of_int 17 / real_of_int 17\<rceil> \<le> 2 ^ 53 \<and>
   (\<exists>p. MatMulLWSProgram (3, 70, 17) 5 False False (None :: unit option) None None = Inr p \<and>
      dispatch p = (Some 9, 1, 1)) \<and>
   (\<exists>q. Conv2DMMLWSProgram \<lparr>outShape = (3, 7, 10, 17), dataFormat = ''channelsLast''\<rparr> 70 17 5
           False None False = Inr q \<and>
      dispatch q = (Some 9, 1, 1))"
proof -
  have bound:
    "(3::int) * \<lceil>real_of_int 70 / real_of_int (if (70::int) < 32 then 70 else 32)\<rceil> *
       \<lceil>real_of_int 17 / real_of_int (if (17::int) < 32 then 17 else 32)\<rceil> \<le> 2 ^ 53"
    by simp
  obtain p q where
    p: "MatMulLWSProgram (3, 70, 17) 5 False False (None :: unit option) None None = Inr p" and
    dp: "dispatch p = (Some (3 * \<lceil>real_of_int 70 / real_of_int (tileM p)\<rceil> *
                       \<lceil>real_of_int 17 / real_of_int (tileN p)\<rceil>), 1, 1)" and
    q: "Conv2DMMLWSProgram \<lparr>outShape = (3, 7, 10, 17), dataFormat = ''channelsLast''\<rparr> 70 17 5
           False None False = Inr q" and
    dq: "dispatch q = (Some (3 * \<lceil>real_of_int 70 / real_of_int (tileM q)\<rceil> *
                       \<lceil>real_of_int 17 / real_of_int (tileN q)\<rceil>), 1, 1)"
    using dispatch_geometry [of 3 70 17 5 False False "None :: unit option" None None
        7 10 17 "''channelsLast''" False False, OF _ _ _ _ _ _ bound]
    by auto
  have "tileM p = 32" "tileN p = 17" "tileM q = 32" "tileN q = 17"
    using MatMul_fields(3,4) [OF p] Conv_fields(3,4) [OF q] by simp_all
  then have "dispatch p = (Some 9, 1, 1)" "dispatch q = (Some 9, 1, 1)"
    using dp dq by simp_all
  with p q show ?thesis by simp
qed

text \<open>
  Beyond \<open>2 ^ 53\<close> the count is the rounded double product: for batch \<open>2 ^ 53 - 1\<close>, M = 70
  and N = 17 the exact product is 27021597764222973, and the count of the code is the
  nearest double.
\<close>

lemma numWorkgroups_rounded:
  "numWorkgroups (2 ^ 53 - 1) 70 32 17 17 = Some 27021597764222972"
proof -
  have c: "ceilDiv 70 32 = Some 3" "ceilDiv 17 17 = Some 1"
    by (simp_all add: ceilDiv_def)
  have b: "bitLength 27021597764222973 = Suc 54" "bitLength 27021597764222972 = Suc 54"
    by (rule bitLength_between; simp)+
  have "nearestDouble 27021597764222973 = Some 27021597764222972"
    "nearestDouble 27021597764222972 = Some 27021597764222972"
    by (simp_all add: nearestDouble_def Let_def b)
  then show ?thesis
    by (simp add: numWorkgroups_def c js_mul_def)
qed

section \<open>The synthesized kernel text\<close>

text \<open>
  Claim C8. For a valid tile configuration (the three remainders are 0, outputNumber and
  aComponents at least 1) the text of \<open>makeMatMulLWSSource\<close> starts with the declarations
  of the two workgroup buffers: \<open>mm_Asub\<close>, tileM rows of tileK / aComponents vectors of
  the type of width aComponents, and \<open>mm_Bsub\<close>, tileK rows of tileN / components vectors
  of the type of width components. Provided the type snippets and the entry point header
  bring none of their own, the text has exactly two occurrences of \<open>var<workgroup>\<close> and
  exactly two of \<open>workgroupBarrier()\<close>. Both barriers stand in the body of the loop over
  the shared dimension. The part of the body before the first barrier holds the two
  cooperative loads, the assignments of \<open>mm_readA\<close> to \<open>mm_Asub[inputRow][inputCol]\<close> and
  of \<open>mm_readB\<close> to \<open>mm_Bsub[inputRow][inputCol]\<close>; the part between the two barriers
  holds the accumulation, the read of \<open>mm_Asub\<close> into \<open>aData\<close> and the \<open>fma\<close> into
  \<open>values[0]\<close>; the second barrier is followed by the end of the loop. There is no
  barrier before the loop, in the loads, in the accumulation or after the loop.
\<close>

theorem kernel_text_buffers_and_barriers:
  assumes "js_rem tN c = Some 0" and "js_rem tM out = Some 0" and "js_rem tK a = Some 0"
    and "1 \<le> out" and "1 \<le> a"
    and "countOccurrences ''var<workgroup>'' (typeSnippet ext a) = 0"
    and "countOccurrences ''var<workgroup>'' (typeSnippet ext c) = 0"
    and "countOccurrences ''var<workgroup>'' (getMainHeaderString ext) = 0"
    and "countOccurrences ''workgroupBarrier()'' (typeSnippet ext a) = 0"
    and "countOccurrences ''workgroupBarrier()'' (typeSnippet ext c) = 0"
    and "countOccurrences ''workgroupBarrier()'' (getMainHeaderString ext) = 0"
  shows "\<exists>text rest pre loads compute post.
      makeMatMulLWSSource ext wg out c a tM tN tK isConv = Some text \<and>
      text =
        ''\<newline>'' @
        ''  var<workgroup> mm_Asub: array<array<'' @ typeSnippet ext a @ '', '' @
        numberToString (tK div a) @ ''>, '' @ numberToString tM @ ''>;\<newline>'' @
        ''  var<workgroup> mm_Bsub: array<array<'' @ typeSnippet ext c @ '', '' @
        numberToString (tN div c) @ ''>, '' @ numberToString tK @ ''>;\<newline>'' @ rest \<and>
      countOccurrences ''var<workgroup>'' text = 2 \<and>
      countOccurrences ''workgroupBarrier()'' text = 2 \<and>
      text =
        pre @
        ''    for (var t = 0u; t < numTiles; t = t + 1u) {\<newline>'' @
        loads @
        ''      workgroupBarrier();\<newline>'' @
        compute @
        ''      workgroupBarrier();\<newline>'' @
        ''    }\<newline>'' @ post \<and>
      sublist
        (''mm_Asub[inputRow][inputCol] = mm_readA(batchA, i32(tileRowStart + inputRow), i32(kStart + inputCol * '' @
         numberToString a @ ''));'') loads \<and>
      sublist
        (''mm_Bsub[inputRow][inputCol] = mm_readB(batchB, i32(kStart + inputRow), i32(tileColStart + inputCol * '' @
         numberToString c @ ''));'') loads \<and>
      sublist
        (''aData = mm_Asub[localRow + 0][k / '' @ numberToString a @ ''];'' @
         ''\<newline>'' @
         ''          values[0] = fma('' @ typeSnippet ext c @ ''(aData'' @
         (if a = 1 then [] else ''[0]'') @ ''), bData0, values[0]);\<newline>'') compute \<and>
      countOccurrences ''workgroupBarrier()'' pre = 0 \<and>
      countOccurrences ''workgroupBarrier()'' loads = 0 \<and>
      countOccurrences ''workgroupBarrier()'' compute = 0 \<and>
      countOccurrences ''workgroupBarrier()'' post = 0"
proof -
  let ?aVT = "typeSnippet ext a" and ?bVT = "typeSnippet ext c"
  let ?decl = "sharedMemoryDeclarations ?aVT ?bVT c a tM tN tK"
  let ?rec = "tileIndexRecovery ext ?bVT out tM tN tK isConv"
  let ?kernel = "?decl @ ?rec @ reductionLoop ?aVT ?bVT wg out c a tM tN tK @ writeBack wg out c tM tN"
  let ?pre = "?decl @ ?rec @ ''    // Loop over shared dimension.\<newline>''"
  let ?loads = "loadTiles wg c a tM tN tK"
  let ?compute = "computeValues ?aVT ?bVT wg out c a tM tN tK"
  let ?bar = "''workgroupBarrier()''"
  note kp = kernelPattern_simps
  have src: "makeMatMulLWSSource ext wg out c a tM tN tK isConv = Some ?kernel"
    using makeMatMulLWSSource_valid [OF assms(1-3)] .
  have decl: "?kernel =
        ''\<newline>'' @
        ''  var<workgroup> mm_Asub: array<array<'' @ typeSnippet ext a @ '', '' @
        numberToString (tK div a) @ ''>, '' @ numberToString tM @ ''>;\<newline>'' @
        ''  var<workgroup> mm_Bsub: array<array<'' @ typeSnippet ext c @ '', '' @
        numberToString (tN div c) @ ''>, '' @ numberToString tK @ ''>;\<newline>'' @
        (''  '' @ ?rec @ reductionLoop ?aVT ?bVT wg out c a tM tN tK @ writeBack wg out c tM tN)"
    by (simp add: sharedMemoryDeclarations_def)
  have n1: "countOccurrences ''var<workgroup>'' ?kernel = 2"
    by (rule source_count [OF kp(1) assms(6,7,8)])
  have n2: "countOccurrences ?bar ?kernel = 2"
    by (rule source_count [OF kp(2) assms(9,10,11)])
  have loop: "?kernel =
        ?pre @
        ''    for (var t = 0u; t < numTiles; t = t + 1u) {\<newline>'' @
        ?loads @
        ''      workgroupBarrier();\<newline>'' @
        ?compute @
        ''      workgroupBarrier();\<newline>'' @
        ''    }\<newline>'' @ writeBack wg out c tM tN"
    by (simp add: reductionLoop_def)
  have w: "sublist
        (''mm_Asub[inputRow][inputCol] = mm_readA(batchA, i32(tileRowStart + inputRow), i32(kStart + inputCol * '' @
         numberToString a @ ''));'') ?loads"
      "sublist
        (''mm_Bsub[inputRow][inputCol] = mm_readB(batchB, i32(kStart + inputRow), i32(tileColStart + inputCol * '' @
         numberToString c @ ''));'') ?loads"
    by (rule loadTiles_writes)+
  have acc: "sublist
        (''aData = mm_Asub[localRow + 0][k / '' @ numberToString a @ ''];'' @
         ''\<newline>'' @
         ''          values[0] = fma('' @ typeSnippet ext c @ ''(aData'' @
         (if a = 1 then [] else ''[0]'') @ ''), bData0, values[0]);\<newline>'') ?compute"
    by (rule computeValues_accumulates [OF assms(4,5)])
  have z1: "countOccurrences ?bar ?pre = 0"
    using sharedMemoryDeclarations_count [OF kp(2) assms(9,10)]
      tileIndexRecovery_count [OF kp(2) assms(11,10)]
    by simp
  have z2: "countOccurrences ?bar ?loads = 0"
    using loadTiles_count [OF kp(2), of wg c a tM tN tK "[]"] by simp
  have z3: "countOccurrences ?bar ?compute = 0"
    using computeValues_count [OF kp(2) assms(9,10), of wg out c a tM tN tK "[]"] by simp
  have z4: "countOccurrences ?bar (writeBack wg out c tM tN) = 0"
    using writeBack_count [OF kp(2), of wg out c tM tN "[]"] by simp
  show ?thesis
    using src decl n1 n2 loop w acc z1 z2 z3 z4 by blast
qed

theorem kernel_text_buffers_and_barriers_witness:
  "js_rem 32 4 = Some 0 \<and> js_rem 16 4 = Some 0 \<and> (1::int) \<le> 4 \<and>
   (\<exists>text. makeMatMulLWSSource
       \<lparr>typeSnippet = (\<lambda>n. if n = 1 then ''f32'' else ''vec'' @ numberToString n @ ''<f32>''),
        getMainHeaderString = ''fn main()'',
        activationFnSnippet = (\<lambda>act hasPrelu packed. []),
        matMulReadWriteFnSource = (\<lambda>hasBias act trA trB fitA fitB fitI c a. []),
        conv2dCommonSnippet = (\<lambda>l fitA fitB fitI hasBias act hasPrelu a c oc. [])\<rparr>
       64 4 4 4 32 32 16 False = Some text \<and>
     prefix
       (''\<newline>'' @
        ''  var<workgroup> mm_Asub: array<array<vec4<f32>, 4>, 32>;\<newline>'' @
        ''  var<workgroup> mm_Bsub: array<array<vec4<f32>, 8>, 16>;\<newline>'') text \<and>
     countOccurrences ''var<workgroup>'' text = 2 \<and>
     countOccurrences ''workgroupBarrier()'' text = 2)"
proof -
  let ?ext = "\<lparr>typeSnippet = (\<lambda>n. if n = 1 then ''f32'' else ''vec'' @ numberToString n @ ''<f32>''),
        getMainHeaderString = ''fn main()'',
        activationFnSnippet = (\<lambda>act hasPrelu packed. []),
        matMulReadWriteFnSource = (\<lambda>hasBias act trA trB fitA fitB fitI c a. []),
        conv2dCommonSnippet = (\<lambda>l fitA fitB fitI hasBias act hasPrelu a c oc. [])\<rparr>"
  have valid: "js_rem 32 4 = Some 0" "js_rem 16 4 = Some 0" "(1::int) \<le> 4"
    by (simp_all add: js_rem_def)
  have ts: "typeSnippet ?ext 4 = ''vec4<f32>''" "getMainHeaderString ?ext = ''fn main()''"
    by (simp_all add: numberToString_digit)
  have none:
    "countOccurrences ''var<workgroup>'' (typeSnippet ?ext 4) = 0"
    "countOccurrences ''var<workgroup>'' (getMainHeaderString ?ext) = 0"
    "countOccurrences ''workgroupBarrier()'' (typeSnippet ?ext 4) = 0"
    "countOccurrences ''workgroupBarrier()'' (getMainHeaderString ?ext) = 0"
    unfolding ts by simp_all
  obtain kernel rest where
    "makeMatMulLWSSource ?ext 64 4 4 4 32 32 16 False = Some kernel"
    "kernel =
        ''\<newline>'' @
        ''  var<workgroup> mm_Asub: array<array<'' @ typeSnippet ?ext 4 @ '', '' @
        numberToString (16 div 4) @ ''>, '' @ numberToString 32 @ ''>;\<newline>'' @
        ''  var<workgroup> mm_Bsub: array<array<'' @ typeSnippet ?ext 4 @ '', '' @
        numberToString (32 div 4) @ ''>, '' @ numberToString 16 @ ''>;\<newline>'' @ rest"
    "countOccurrences ''var<workgroup>'' kernel = 2"
    "countOccurrences ''workgroupBarrier()'' kernel = 2"
    using kernel_text_buffers_and_barriers
      [OF valid(1) valid(1) valid(2) valid(3) valid(3)
          none(1) none(1) none(2) none(3) none(3) none(4), of 64 False]
    by blast
  then show ?thesis
    using valid unfolding ts by (simp add: numberToString_digit)
qed

text \<open>
  Claim C9. In a program the convolution constructor builds, the declared width of the
  first operand, \<open>variableComponents[0]\<close>, is 1 when aComponents is 3 and aComponents
  otherwise; aComponents is 3 exactly when K is divisible by 3 and not by 4. The kernel
  text of that program still declares \<open>mm_Asub\<close> with the true aComponents: tileM rows of
  tileK / aComponents vectors of the type of width aComponents (tileK / 3 vectors of
  width 3 when aComponents is 3).
\<close>

theorem conv_declared_width_and_buffer:
  assumes "Conv2DMMLWSProgram convInfo M N K hasBias act hasPrelu = Inr p"
  shows "variableComponents p ! 0 = (if aComponents p = 3 then 1 else aComponents p) \<and>
         (aComponents p = 3 \<longleftrightarrow> js_rem K 4 \<noteq> Some 0 \<and> js_rem K 3 = Some 0) \<and>
         (\<exists>text. getUserCode_conv ext p = Some text \<and>
            sublist
              (''var<workgroup> mm_Asub: array<array<'' @ typeSnippet ext (aComponents p) @ '', '' @
               numberToString (tileK p div aComponents p) @ ''>, '' @ numberToString (tileM p) @
               ''>;'')
              text)"
proof -
  have "variableComponents p ! 0 = (if aComponents p = 3 then 1 else aComponents p)"
    by (rule Conv_fields(8) [OF assms])
  moreover have "aComponents p = 3 \<longleftrightarrow> js_rem K 4 \<noteq> Some 0 \<and> js_rem K 3 = Some 0"
    unfolding Conv_fields(2) [OF assms] by (simp add: getMaxComponents_conv_def)
  moreover have "\<exists>text. getUserCode_conv ext p = Some text \<and>
            sublist
              (''var<workgroup> mm_Asub: array<array<'' @ typeSnippet ext (aComponents p) @ '', '' @
               numberToString (tileK p div aComponents p) @ ''>, '' @ numberToString (tileM p) @
               ''>;'')
              text"
  proof -
    let ?decl = "''var<workgroup> mm_Asub: array<array<'' @ typeSnippet ext (aComponents p) @ '', '' @
               numberToString (tileK p div aComponents p) @ ''>, '' @ numberToString (tileM p) @
               ''>;''"
    obtain rest where src:
      "makeMatMulLWSSource ext 64 (outputNumber p) (components p) (aComponents p)
         (tileM p) (tileN p) (tileK p) True = Some (''\<newline>'' @ ''  '' @ ?decl @ rest)"
      using makeMatMulLWSSource_declarations [OF Conv_fields(9-11) [OF assms]] by blast
    have "sublist ?decl (''\<newline>'' @ ''  '' @ ?decl @ rest)"
      using sublist_appendI [of ?decl "''\<newline>'' @ ''  ''" rest] by simp
    then show ?thesis
      by (rule getUserCode_conv_sublist [OF assms src])
  qed
  ultimately show ?thesis by blast
qed

theorem conv_declared_width_and_buffer_witness:
  "\<exists>p kernel.
     Conv2DMMLWSProgram \<lparr>outShape = (1, 4, 4, 8), dataFormat = ''channelsLast''\<rparr> 16 8 9
       False None False = Inr p \<and>
     aComponents p = 3 \<and> variableComponents p ! 0 = 1 \<and>
     getUserCode_conv
       \<lparr>typeSnippet = (\<lambda>n. if n = 1 then ''f32'' else ''vec'' @ numberToString n @ ''<f32>''),
        getMainHeaderString = ''fn main()'',
        activationFnSnippet = (\<lambda>act hasPrelu packed. []),
        matMulReadWriteFnSource = (\<lambda>hasBias act trA trB fitA fitB fitI c a. []),
        conv2dCommonSnippet = (\<lambda>l fitA fitB fitI hasBias act hasPrelu a c oc. [])\<rparr> p =
       Some kernel \<and>
     sublist ''var<workgroup> mm_Asub: array<array<vec3<f32>, 3>, 16>;'' kernel"
proof -
  let ?ext = "\<lparr>typeSnippet = (\<lambda>n. if n = 1 then ''f32'' else ''vec'' @ numberToString n @ ''<f32>''),
        getMainHeaderString = ''fn main()'',
        activationFnSnippet = (\<lambda>act hasPrelu packed. []),
        matMulReadWriteFnSource = (\<lambda>hasBias act trA trB fitA fitB fitI c a. []),
        conv2dCommonSnippet = (\<lambda>l fitA fitB fitI hasBias act hasPrelu a c oc. [])\<rparr>"
  let ?ci = "\<lparr>outShape = (1, 4, 4, 8), dataFormat = ''channelsLast''\<rparr>"
  obtain p where p: "Conv2DMMLWSProgram ?ci 16 8 9 False None False = Inr p"
    using Conv_constructs [of 16 8 ?ci 9 False None False] by auto
  note c = conv_declared_width_and_buffer [OF p, of ?ext]
  have a3: "aComponents p = 3"
    using c by (simp add: js_rem_def)
  have tiles: "tileK p = 9" "tileM p = 16"
    using Conv_fields(4,5) [OF p] by simp_all
  have ts: "typeSnippet ?ext 3 = ''vec3<f32>''"
    by (simp add: numberToString_digit)
  obtain kernel where
    "getUserCode_conv ?ext p = Some kernel"
    "sublist
       (''var<workgroup> mm_Asub: array<array<'' @ typeSnippet ?ext (aComponents p) @ '', '' @
        numberToString (tileK p div aComponents p) @ ''>, '' @ numberToString (tileM p) @ ''>;'')
       kernel"
    using c by blast
  then have "getUserCode_conv ?ext p = Some kernel \<and>
     sublist ''var<workgroup> mm_Asub: array<array<vec3<f32>, 3>, 16>;'' kernel"
    unfolding a3 tiles ts by (simp add: numberToString_digit)
  moreover have "variableComponents p ! 0 = 1"
    using c a3 by simp
  ultimately show ?thesis using p a3 by blast
qed



section \<open>Epilogue combinations\<close>

text \<open>
  Claim C7 (as the code has it). Neither constructor looks at the combination of
  activation and PReLU weights; the divisibility check is its only rejection. For M and N
  that are at least 1, a request that supplies PReLU weights and selects no activation
  builds a program, with \<open>hasPreluActivationWeights\<close> set, \<open>activation\<close> null and
  \<open>preluActivationWeights\<close> as the last declared operand, and \<open>getUserCode\<close> returns the
  kernel text of that program.
\<close>

theorem prelu_without_activation_is_accepted:
  assumes "1 \<le> M" and "1 \<le> N"
  shows "(\<exists>p kernel.
            MatMulLWSProgram (batch, M, N) K trA trB bias None (Some weights) = Inr p \<and>
            activation p = None \<and> hasPreluActivationWeights p \<and>
            last (variableNames p) = ''preluActivationWeights'' \<and>
            getUserCode ext p = Some kernel) \<and>
         (\<exists>q kernel.
            Conv2DMMLWSProgram convInfo M N K hasBias None True = Inr q \<and>
            activation q = None \<and> hasPreluActivationWeights q \<and>
            last (variableNames q) = ''preluActivationWeights'' \<and>
            getUserCode_conv ext q = Some kernel)"
proof
  obtain p where p: "MatMulLWSProgram (batch, M, N) K trA trB bias None (Some weights) = Inr p"
    using MatMul_constructs [OF assms] by blast
  have "activation p = None" "hasPreluActivationWeights p"
    "last (variableNames p) = ''preluActivationWeights''"
    using MatMul_more_fields(2,4,5) [OF p] by (simp_all add: pushIf_def)
  then show "\<exists>p kernel.
            MatMulLWSProgram (batch, M, N) K trA trB bias None (Some weights) = Inr p \<and>
            activation p = None \<and> hasPreluActivationWeights p \<and>
            last (variableNames p) = ''preluActivationWeights'' \<and>
            getUserCode ext p = Some kernel"
    using p MatMul_getUserCode [OF p, of ext] by blast
next
  obtain q where q: "Conv2DMMLWSProgram convInfo M N K hasBias None True = Inr q"
    using Conv_constructs [OF assms] by blast
  have "activation q = None" "hasPreluActivationWeights q"
    "last (variableNames q) = ''preluActivationWeights''"
    using Conv_more_fields(2,4,5) [OF q] by (simp_all add: pushIf_def)
  then show "\<exists>q kernel.
            Conv2DMMLWSProgram convInfo M N K hasBias None True = Inr q \<and>
            activation q = None \<and> hasPreluActivationWeights q \<and>
            last (variableNames q) = ''preluActivationWeights'' \<and>
            getUserCode_conv ext q = Some kernel"
    using q Conv_getUserCode [OF q, of ext] by blast
qed

theorem prelu_without_activation_is_accepted_witness:
  "(1::int) \<le> 64 \<and>
   (\<exists>p. MatMulLWSProgram (1, 64, 64) 64 False False (None :: unit option) None (Some ()) = Inr p \<and>
        activation p = None \<and> hasPreluActivationWeights p \<and>
        last (variableNames p) = ''preluActivationWeights'') \<and>
   (\<exists>q. Conv2DMMLWSProgram \<lparr>outShape = (1, 8, 8, 64), dataFormat = ''channelsLast''\<rparr> 64 64 64
          False None True = Inr q \<and>
        activation q = None \<and> hasPreluActivationWeights q \<and>
        last (variableNames q) = ''preluActivationWeights'')"
  using prelu_without_activation_is_accepted [of 64 64 1 64 False False "None :: unit option" "()"
      "\<lparr>typeSnippet = (\<lambda>n. []), getMainHeaderString = [],
        activationFnSnippet = (\<lambda>act hasPrelu packed. []),
        matMulReadWriteFnSource = (\<lambda>hasBias act trA trB fitA fitB fitI c a. []),
        conv2dCommonSnippet = (\<lambda>l fitA fitB fitI hasBias act hasPrelu a c oc. [])\<rparr>"
      "\<lparr>outShape = (1, 8, 8, 64), dataFormat = ''channelsLast''\<rparr>" False]
  by auto

text \<open>
  The request of the claim is not rejected: both constructors return the program.
\<close>

theorem prelu_without_activation_counterexample:
  "map_sum id (\<lambda>p. (activation p, hasPreluActivationWeights p, variableNames p))
     (MatMulLWSProgram (1, 64, 64) 64 False False (None :: unit option) None (Some ())) =
     Inr (None, True, [''A'', ''B'', ''preluActivationWeights'']) \<and>
   map_sum id (\<lambda>p. (activation p, hasPreluActivationWeights p, variableNames p))
     (Conv2DMMLWSProgram \<lparr>outShape = (1, 8, 8, 64), dataFormat = ''channelsLast''\<rparr> 64 64 64
        False None True) =
     Inr (None, True, [''x'', ''W'', ''preluActivationWeights''])"
  by (simp add: MatMulLWSProgram_def Conv2DMMLWSProgram_def Let_def js_rem_def pushIf_def
      getMaxComponents_def getMaxComponents_conv_def)

section \<open>The shader key\<close>

text \<open>
  Claim C2 (as the code has it). The key is a function of the constructor's arguments, so
  identical requests have identical keys. The key of a constructed program encodes the
  activation, the three fit flags, tileK, tileM, tileN, components, aComponents and
  outputNumber, and in the matrix-multiply program the two transpose flags: two programs
  of one family with equal keys agree on every one of these fields (the activation being
  a name of the activation type, none of which is \<open>null\<close>), so programs that differ in
  one of them have different keys. The key does not encode the presence of a bias or of
  PReLU weights: two programs with equal keys have the same kernel text when they also
  agree on these two (and, for the convolution program, on the channel layout).
\<close>

theorem shaderKey_determines_kernel_text:
  "(MatMulLWSProgram (batch, M, N) K trA trB bias act prelu = Inr p \<and>
    MatMulLWSProgram (batch', M', N') K' trA' trB' bias' act' prelu' = Inr p' \<and>
    act \<noteq> Some ''null'' \<and> act' \<noteq> Some ''null'' \<and> shaderKey p = shaderKey p' \<longrightarrow>
      activation p = activation p' \<and> transposeA p = transposeA p' \<and>
      transposeB p = transposeB p' \<and> fitAOuter p = fitAOuter p' \<and>
      fitBOuter p = fitBOuter p' \<and> fitInner p = fitInner p' \<and>
      tileK p = tileK p' \<and> tileM p = tileM p' \<and> tileN p = tileN p' \<and>
      components p = components p' \<and> aComponents p = aComponents p' \<and>
      outputNumber p = outputNumber p' \<and>
      (addBias p = addBias p' \<and>
       hasPreluActivationWeights p = hasPreluActivationWeights p' \<longrightarrow>
         getUserCode ext p = getUserCode ext p')) \<and>
   (Conv2DMMLWSProgram convInfo cM cN cK hasBias cact hasPrelu = Inr q \<and>
    Conv2DMMLWSProgram convInfo' cM' cN' cK' hasBias' cact' hasPrelu' = Inr q' \<and>
    cact \<noteq> Some ''null'' \<and> cact' \<noteq> Some ''null'' \<and> shaderKey q = shaderKey q' \<longrightarrow>
      activation q = activation q' \<and> fitAOuter q = fitAOuter q' \<and>
      fitBOuter q = fitBOuter q' \<and> fitInner q = fitInner q' \<and>
      tileK q = tileK q' \<and> tileM q = tileM q' \<and> tileN q = tileN q' \<and>
      components q = components q' \<and> aComponents q = aComponents q' \<and>
      outputNumber q = outputNumber q' \<and>
      (addBias q = addBias q' \<and>
       hasPreluActivationWeights q = hasPreluActivationWeights q' \<and>
       isChannelsLast q = isChannelsLast q' \<longrightarrow>
         getUserCode_conv ext q = getUserCode_conv ext q'))"
proof (intro conjI impI; elim conjE)
  assume p: "MatMulLWSProgram (batch, M, N) K trA trB bias act prelu = Inr p"
    and p': "MatMulLWSProgram (batch', M', N') K' trA' trB' bias' act' prelu' = Inr p'"
    and a: "act \<noteq> Some ''null''" "act' \<noteq> Some ''null''"
    and key: "shaderKey p = shaderKey p'"
  note f = MatMul_key_fields [OF p p' a key]
  show "activation p = activation p'" "transposeA p = transposeA p'"
    "transposeB p = transposeB p'" "fitAOuter p = fitAOuter p'"
    "fitBOuter p = fitBOuter p'" "fitInner p = fitInner p'"
    "tileK p = tileK p'" "tileM p = tileM p'" "tileN p = tileN p'"
    "components p = components p'" "aComponents p = aComponents p'"
    "outputNumber p = outputNumber p'"
    by (rule f)+
  assume "addBias p = addBias p'"
    and "hasPreluActivationWeights p = hasPreluActivationWeights p'"
  then show "getUserCode ext p = getUserCode ext p'"
    unfolding MatMul_getUserCode [OF p] MatMul_getUserCode [OF p'] by (simp only: f)
next
  assume q: "Conv2DMMLWSProgram convInfo cM cN cK hasBias cact hasPrelu = Inr q"
    and q': "Conv2DMMLWSProgram convInfo' cM' cN' cK' hasBias' cact' hasPrelu' = Inr q'"
    and a: "cact \<noteq> Some ''null''" "cact' \<noteq> Some ''null''"
    and key: "shaderKey q = shaderKey q'"
  note f = Conv_key_fields [OF q q' a key]
  show "activation q = activation q'" "fitAOuter q = fitAOuter q'"
    "fitBOuter q = fitBOuter q'" "fitInner q = fitInner q'"
    "tileK q = tileK q'" "tileM q = tileM q'" "tileN q = tileN q'"
    "components q = components q'" "aComponents q = aComponents q'"
    "outputNumber q = outputNumber q'"
    by (rule f)+
  assume "addBias q = addBias q'"
    and "hasPreluActivationWeights q = hasPreluActivationWeights q'"
    and "isChannelsLast q = isChannelsLast q'"
  then show "getUserCode_conv ext q = getUserCode_conv ext q'"
    unfolding Conv_getUserCode [OF q] Conv_getUserCode [OF q'] by (simp only: f)
qed

theorem shaderKey_determines_kernel_text_witness:
  "\<exists>p p' q q'.
     MatMulLWSProgram (1, 64, 64) 64 False False (None :: unit option) None None = Inr p \<and>
     MatMulLWSProgram (2, 96, 128) 128 False False (None :: unit option) None None = Inr p' \<and>
     shaderKey p = shaderKey p' \<and> tileK p = tileK p' \<and>
     getUserCode
       \<lparr>typeSnippet = (\<lambda>n. if n = 1 then ''f32'' else ''vec'' @ numberToString n @ ''<f32>''),
        getMainHeaderString = ''fn main()'',
        activationFnSnippet = (\<lambda>act hasPrelu packed. []),
        matMulReadWriteFnSource = (\<lambda>hasBias act trA trB fitA fitB fitI c a. []),
        conv2dCommonSnippet = (\<lambda>l fitA fitB fitI hasBias act hasPrelu a c oc. [])\<rparr> p =
     getUserCode
       \<lparr>typeSnippet = (\<lambda>n. if n = 1 then ''f32'' else ''vec'' @ numberToString n @ ''<f32>''),
        getMainHeaderString = ''fn main()'',
        activationFnSnippet = (\<lambda>act hasPrelu packed. []),
        matMulReadWriteFnSource = (\<lambda>hasBias act trA trB fitA fitB fitI c a. []),
        conv2dCommonSnippet = (\<lambda>l fitA fitB fitI hasBias act hasPrelu a c oc. [])\<rparr> p' \<and>
     Conv2DMMLWSProgram \<lparr>outShape = (1, 8, 8, 64), dataFormat = ''channelsLast''\<rparr> 64 64 64
       False None False = Inr q \<and>
     Conv2DMMLWSProgram \<lparr>outShape = (2, 8, 12, 128), dataFormat = ''channelsLast''\<rparr> 96 128 128
       False None False = Inr q' \<and>
     shaderKey q = shaderKey q' \<and> tileK q = tileK q' \<and>
     getUserCode_conv
       \<lparr>typeSnippet = (\<lambda>n. if n = 1 then ''f32'' else ''vec'' @ numberToString n @ ''<f32>''),
        getMainHeaderString = ''fn main()'',
        activationFnSnippet = (\<lambda>act hasPrelu packed. []),
        matMulReadWriteFnSource = (\<lambda>hasBias act trA trB fitA fitB fitI c a. []),
        conv2dCommonSnippet = (\<lambda>l fitA fitB fitI hasBias act hasPrelu a c oc. [])\<rparr> q =
     getUserCode_conv
       \<lparr>typeSnippet = (\<lambda>n. if n = 1 then ''f32'' else ''vec'' @ numberToString n @ ''<f32>''),
        getMainHeaderString = ''fn main()'',
        activationFnSnippet = (\<lambda>act hasPrelu packed. []),
        matMulReadWriteFnSource = (\<lambda>hasBias act trA trB fitA fitB fitI c a. []),
        conv2dCommonSnippet = (\<lambda>l fitA fitB fitI hasBias act hasPrelu a c oc. [])\<rparr> q'"
proof -
  let ?ext = "\<lparr>typeSnippet = (\<lambda>n. if n = 1 then ''f32'' else ''vec'' @ numberToString n @ ''<f32>''),
        getMainHeaderString = ''fn main()'',
        activationFnSnippet = (\<lambda>act hasPrelu packed. []),
        matMulReadWriteFnSource = (\<lambda>hasBias act trA trB fitA fitB fitI c a. []),
        conv2dCommonSnippet = (\<lambda>l fitA fitB fitI hasBias act hasPrelu a c oc. [])\<rparr>"
  let ?c1 = "\<lparr>outShape = (1, 8, 8, 64), dataFormat = ''channelsLast''\<rparr>"
  let ?c2 = "\<lparr>outShape = (2, 8, 12, 128), dataFormat = ''channelsLast''\<rparr>"
  obtain p where p: "MatMulLWSProgram (1, 64, 64) 64 False False (None :: unit option) None None = Inr p"
    using MatMul_constructs [of 64 64 1 64 False False "None :: unit option" None None] by auto
  obtain p' where p': "MatMulLWSProgram (2, 96, 128) 128 False False (None :: unit option) None None = Inr p'"
    using MatMul_constructs [of 96 128 2 128 False False "None :: unit option" None None] by auto
  obtain q where q: "Conv2DMMLWSProgram ?c1 64 64 64 False None False = Inr q"
    using Conv_constructs [of 64 64 ?c1 64 False None False] by auto
  obtain q' where q': "Conv2DMMLWSProgram ?c2 96 128 128 False None False = Inr q'"
    using Conv_constructs [of 96 128 ?c2 128 False None False] by auto
  have tp: "tileM p = 32" "tileN p = 32" "tileK p = 16" "tileM p' = 32" "tileN p' = 32" "tileK p' = 16"
    using MatMul_fields(3-5) [OF p] MatMul_fields(3-5) [OF p'] by simp_all
  have cp: "components p = 4" "aComponents p = 4" "components p' = 4" "aComponents p' = 4"
    "outputNumber p = 4" "outputNumber p' = 4"
    using MatMul_fields(1,2,6) [OF p] MatMul_fields(1,2,6) [OF p'] tp
    by (simp_all add: js_rem_def getMaxComponents_def)
  have fp: "fitAOuter p = fitAOuter p'" "fitBOuter p = fitBOuter p'" "fitInner p = fitInner p'"
    "transposeA p = transposeA p'" "transposeB p = transposeB p'" "activation p = activation p'"
    "addBias p = addBias p'" "hasPreluActivationWeights p = hasPreluActivationWeights p'"
    using MatMul_more_fields [OF p] MatMul_more_fields [OF p'] tp by (simp_all add: js_rem_def)
  have kp: "shaderKey p = shaderKey p'"
    unfolding MatMul_shaderKey [OF p] MatMul_shaderKey [OF p'] by (simp only: tp cp fp)
  have tq: "tileM q = 32" "tileN q = 32" "tileM q' = 32" "tileN q' = 32"
    using Conv_fields(3,4) [OF q] Conv_fields(3,4) [OF q'] by simp_all
  have aq: "aComponents q = 4" "aComponents q' = 4" "components q = 4" "components q' = 4"
    using Conv_fields(1,2) [OF q] Conv_fields(1,2) [OF q']
    by (simp_all add: js_rem_def getMaxComponents_conv_def)
  have kq0: "tileK q = 16" "tileK q' = 16"
    using Conv_fields(5) [OF q] Conv_fields(5) [OF q'] aq by simp_all
  have oq: "outputNumber q = 4" "outputNumber q' = 4"
    using Conv_fields(6) [OF q] Conv_fields(6) [OF q'] tq
    by (simp_all add: js_rem_def getMaxComponents_conv_def)
  have fq: "fitAOuter q = fitAOuter q'" "fitBOuter q = fitBOuter q'" "fitInner q = fitInner q'"
    "activation q = activation q'" "isChannelsLast q = isChannelsLast q'"
    "addBias q = addBias q'" "hasPreluActivationWeights q = hasPreluActivationWeights q'"
    using Conv_more_fields [OF q] Conv_more_fields [OF q'] tq kq0 by (simp_all add: js_rem_def)
  have kq: "shaderKey q = shaderKey q'"
    unfolding Conv_shaderKey [OF q] Conv_shaderKey [OF q'] by (simp only: tq aq kq0 oq fq)
  note t = shaderKey_determines_kernel_text
    [of 1 64 64 64 False False "None :: unit option" None None p
        2 96 128 128 False False "None :: unit option" None None p' ?ext
        ?c1 64 64 64 False None False q ?c2 96 128 128 False None False q']
  have "getUserCode ?ext p = getUserCode ?ext p'"
    using t p p' kp fp(7,8) by simp
  moreover have "getUserCode_conv ?ext q = getUserCode_conv ?ext q'"
    using t q q' kq fq(5-7) by simp
  ultimately show ?thesis
    using p p' q q' kp kq tp(3,6) kq0 by (intro exI [of _ p] exI [of _ p'] exI [of _ q] exI [of _ q']) simp
qed

text \<open>
  Two matrix-multiply requests that differ only in the presence of a bias, which is passed
  on to the read and write snippet of the kernel text and adds an operand, have the same
  key.
\<close>

theorem shaderKey_bias_counterexample:
  "map_sum id shaderKey
     (MatMulLWSProgram (1, 64, 64) 64 False False (Some ()) None None) =
   map_sum id shaderKey
     (MatMulLWSProgram (1, 64, 64) 64 False False None None (None :: unit option)) \<and>
   map_sum id (\<lambda>p. (addBias p, variableNames p))
     (MatMulLWSProgram (1, 64, 64) 64 False False (Some ()) None None) =
     Inr (True, [''A'', ''B'', ''bias'']) \<and>
   map_sum id (\<lambda>p. (addBias p, variableNames p))
     (MatMulLWSProgram (1, 64, 64) 64 False False None None (None :: unit option)) =
     Inr (False, [''A'', ''B''])"
  by (simp add: MatMulLWSProgram_def Let_def js_rem_def pushIf_def getMaxComponents_def)

end
